theory Spec2Isabelle
  imports Main "HOL-Library.Multiset"
begin

section \<open>JavaScript values and strings\<close>

text \<open>
  The values that reach the data layer of the portal (\<^verbatim>\<open>config/db.js\<close>): a positional
  parameter of \<^verbatim>\<open>db.query\<close> is a string (a form field or a URL parameter), a number, or
  missing (\<^verbatim>\<open>undefined\<close>) or \<^verbatim>\<open>null\<close>. Numbers are the integers; strings are ASCII
  text, one \<^typ>\<open>char\<close> per character.
\<close>

datatype jsval = JUndefined | JNull | JStr string | JNum int

text \<open>Truthiness, as \<^verbatim>\<open>!x\<close> and \<^verbatim>\<open>a || b\<close> see it.\<close>

fun truthy :: "jsval \<Rightarrow> bool" where
  "truthy JUndefined = False"
| "truthy JNull = False"
| "truthy (JStr s) = (s \<noteq> [])"
| "truthy (JNum n) = (n \<noteq> 0)"

definition or_js :: "jsval \<Rightarrow> jsval \<Rightarrow> jsval" where
  "or_js a b = (if truthy a then a else b)"

text \<open>\<^verbatim>\<open>params[i]\<close>: reading past the end of an array gives \<^verbatim>\<open>undefined\<close>.\<close>

definition param :: "jsval list \<Rightarrow> nat \<Rightarrow> jsval" where
  "param ps i = (if i < length ps then ps ! i else JUndefined)"

text \<open>\<^verbatim>\<open>String(v)\<close>: the decimal numeral of a number, the text of a string.\<close>

definition digit_char :: "nat \<Rightarrow> char" where
  "digit_char d = ''0123456789'' ! d"

fun show_nat :: "nat \<Rightarrow> string" where
  "show_nat n = (if n < 10 then [digit_char n] else show_nat (n div 10) @ [digit_char (n mod 10)])"

declare show_nat.simps [simp del]

definition show_int :: "int \<Rightarrow> string" where
  "show_int i = (if i < 0 then CHR ''-'' # show_nat (nat (- i)) else show_nat (nat i))"

fun String_js :: "jsval \<Rightarrow> string" where
  "String_js JUndefined = ''undefined''"
| "String_js JNull = ''null''"
| "String_js (JStr s) = s"
| "String_js (JNum n) = show_int n"

subsection \<open>String methods\<close>

text \<open>White space as \<^verbatim>\<open>trim\<close> and the regular expression class \<^verbatim>\<open>\s\<close> see it (ASCII):
  tab, line feed, vertical tab, form feed, carriage return and space.\<close>

definition isSpace :: "char \<Rightarrow> bool" where
  "isSpace c = (c \<in> set [CHR 0x09, CHR 0x0A, CHR 0x0B, CHR 0x0C, CHR 0x0D, CHR 0x20])"

definition trim :: "string \<Rightarrow> string" where
  "trim s = rev (dropWhile isSpace (rev (dropWhile isSpace s)))"

definition isUpper :: "char \<Rightarrow> bool" where
  "isUpper c = (65 \<le> (of_char c :: nat) \<and> (of_char c :: nat) \<le> 90)"

definition isLower :: "char \<Rightarrow> bool" where
  "isLower c = (97 \<le> (of_char c :: nat) \<and> (of_char c :: nat) \<le> 122)"

definition lower_char :: "char \<Rightarrow> char" where
  "lower_char c = (if isUpper c then char_of (of_char c + (32 :: nat)) else c)"

definition upper_char :: "char \<Rightarrow> char" where
  "upper_char c = (if isLower c then char_of (of_char c - (32 :: nat)) else c)"

definition toLowerCase :: "string \<Rightarrow> string" where
  "toLowerCase s = map lower_char s"

definition toUpperCase :: "string \<Rightarrow> string" where
  "toUpperCase s = map upper_char s"

text \<open>\<^verbatim>\<open>s.replace(/\s+/g, ' ')\<close>: every maximal run of white space becomes one space.\<close>

function collapse :: "string \<Rightarrow> string" where
  "collapse [] = []"
| "collapse (c # cs) =
     (if isSpace c then CHR '' '' # collapse (dropWhile isSpace cs) else c # collapse cs)"
  by pat_completeness auto
termination
  by (relation "measure length") (auto simp: length_dropWhile_le less_Suc_eq_le)

fun startsWith :: "string \<Rightarrow> string \<Rightarrow> bool" where
  "startsWith s [] = True"
| "startsWith [] (p # ps) = False"
| "startsWith (c # cs) (p # ps) = (c = p \<and> startsWith cs ps)"

fun includes_js :: "string \<Rightarrow> string \<Rightarrow> bool" where
  "includes_js [] p = (p = [])"
| "includes_js (c # cs) p = (startsWith (c # cs) p \<or> includes_js cs p)"

text \<open>
  \<^verbatim>\<open>parseInt(s)\<close>: leading white space is skipped, a sign is read, then the longest run of
  decimal digits (of hexadecimal digits after a prefix \<^verbatim>\<open>0x\<close> or \<^verbatim>\<open>0X\<close>); with no digit the
  result is \<^verbatim>\<open>NaN\<close>, here \<^const>\<open>None\<close>. The value is the exact integer, which is what the
  JavaScript number holds up to \<open>2 ^ 53\<close>.
\<close>

definition digit_val :: "char \<Rightarrow> nat option" where
  "digit_val c =
     (let n = (of_char c :: nat) in
      if 48 \<le> n \<and> n \<le> 57 then Some (n - 48)
      else if 97 \<le> n \<and> n \<le> 102 then Some (n - 87)
      else if 65 \<le> n \<and> n \<le> 70 then Some (n - 55)
      else None)"

definition isDigitIn :: "nat \<Rightarrow> char \<Rightarrow> bool" where
  "isDigitIn radix c = (case digit_val c of None \<Rightarrow> False | Some d \<Rightarrow> d < radix)"

definition digits_value :: "nat \<Rightarrow> string \<Rightarrow> nat" where
  "digits_value radix ds = foldl (\<lambda>acc c. acc * radix + the (digit_val c)) 0 ds"

definition parse_digits :: "nat \<Rightarrow> string \<Rightarrow> nat option" where
  "parse_digits radix s =
     (let ds = takeWhile (isDigitIn radix) s
      in if ds = [] then None else Some (digits_value radix ds))"

definition parse_unsigned :: "string \<Rightarrow> nat option" where
  "parse_unsigned s =
     (if startsWith s ''0x'' \<or> startsWith s ''0X'' then parse_digits 16 (drop 2 s)
      else parse_digits 10 s)"

definition parseInt :: "string \<Rightarrow> int option" where
  "parseInt s =
     (case dropWhile isSpace s of
        [] \<Rightarrow> None
      | c # cs \<Rightarrow>
          if c = CHR ''-'' then map_option (\<lambda>n. - int n) (parse_unsigned cs)
          else if c = CHR ''+'' then map_option int (parse_unsigned cs)
          else map_option int (parse_unsigned (c # cs)))"

text \<open>Byte-wise lexicographic order of strings, the order of document identifiers and
  of string fields in the store.\<close>

fun str_lt :: "string \<Rightarrow> string \<Rightarrow> bool" where
  "str_lt [] [] = False"
| "str_lt [] (y # ys) = True"
| "str_lt (x # xs) [] = False"
| "str_lt (x # xs) (y # ys) =
     ((of_char x :: nat) < of_char y \<or> (x = y \<and> str_lt xs ys))"

subsection \<open>Stable sorting\<close>

text \<open>
  A stable sort by a "comes before" test \<open>lt\<close>: an element is placed behind every element
  that does not come after it, so elements that \<open>lt\<close> does not separate keep their order.
  \<^verbatim>\<open>Array.prototype.sort\<close> is stable, and so is the store's ordering of a snapshot (ties are
  broken by document identifier).
\<close>

fun insert_by :: "('a \<Rightarrow> 'a \<Rightarrow> bool) \<Rightarrow> 'a \<Rightarrow> 'a list \<Rightarrow> 'a list" where
  "insert_by lt x [] = [x]"
| "insert_by lt x (y # ys) = (if lt y x then y # insert_by lt x ys else x # y # ys)"

definition stable_sort :: "('a \<Rightarrow> 'a \<Rightarrow> bool) \<Rightarrow> 'a list \<Rightarrow> 'a list" where
  "stable_sort lt xs = foldr (insert_by lt) xs []"

text \<open>
  \<^verbatim>\<open>xs.sort(cmp)\<close>: \<open>a\<close> comes before \<open>b\<close> when \<^verbatim>\<open>cmp(a, b) < 0\<close>; a comparator value
  \<^verbatim>\<open>NaN\<close> (\<^const>\<open>None\<close>) counts as \<open>0\<close>.
\<close>

definition sort_js :: "('a \<Rightarrow> 'a \<Rightarrow> int option) \<Rightarrow> 'a list \<Rightarrow> 'a list" where
  "sort_js cmp xs =
     stable_sort (\<lambda>a b. case cmp a b of None \<Rightarrow> False | Some d \<Rightarrow> d < 0) xs"

section \<open>The document store\<close>

text \<open>An error value, as the code inspects it: its \<^verbatim>\<open>code\<close> and its \<^verbatim>\<open>message\<close>.\<close>

datatype js_error = Thrown (code: jsval) (message: string)

datatype level = Log | Warn | Err

text \<open>The fields of the three kinds of document (the header comment of \<^verbatim>\<open>config/db.js\<close>),
  with the time stamps the code adds.\<close>

record event_data =
  title :: jsval
  date :: jsval
  venue :: jsval
  createdAt :: nat

record registration_data =
  name :: string
  email :: string
  event_id :: string
  r_createdAt :: nat

record user_data =
  uid :: string
  u_email :: jsval
  u_name :: jsval
  role :: jsval
  u_createdAt :: nat
  updatedAt :: "nat option"

text \<open>A collection holds documents under their identifiers; a document read back is the
  pair of its identifier and, if it exists, its data; the plain object
  \<^verbatim>\<open>{ id: doc.id, ...doc.data() }\<close> is the pair of the identifier and the data.\<close>

type_synonym 'd collection = "(string \<times> 'd) list"
type_synonym 'd snapshot = "string \<times> 'd option"
type_synonym event = "string \<times> event_data"
type_synonym registration = "string \<times> registration_data"
type_synonym user = "string \<times> user_data"

text \<open>
  The state the code runs against: the three collections, the failures with which the
  backend will answer the coming calls (one entry per call, \<^const>\<open>None\<close> or no entry for a
  call that is served), the backend's clock, and the console.
\<close>

record state =
  events :: "event_data collection"
  registrations :: "registration_data collection"
  users :: "user_data collection"
  faults :: "js_error option list"
  clock :: nat
  console :: "level list"

definition emit :: "level list \<Rightarrow> state \<Rightarrow> state" where
  "emit ls s = s\<lparr>console := console s @ ls\<rparr>"

subsection \<open>The backend\<close>

text \<open>
  Modelled from the spec: the document store adapter (Firestore, reached through
  \<^verbatim>\<open>firebase-admin\<close>), with the operations of the spec's section 6: create with a generated
  identifier, get by identifier, list, query by field equality, delete; and set and update
  on the users. Every call is answered or rejected, as \<^const>\<open>faults\<close> says. Document
  identifiers are taken to be valid document paths.
\<close>

definition respond :: "state \<Rightarrow> js_error option \<times> state" where
  "respond s = (case faults s of [] \<Rightarrow> (None, s) | f # fs \<Rightarrow> (f, s\<lparr>faults := fs\<rparr>))"

definition by_name :: "'d collection \<Rightarrow> 'd collection" where
  "by_name c = stable_sort (\<lambda>a b. str_lt (fst a) (fst b)) c"

definition doc_get :: "state \<Rightarrow> 'd collection \<Rightarrow> string \<Rightarrow> (js_error + 'd snapshot) \<times> state" where
  "doc_get s c k =
     (case respond s of
        (Some e, s1) \<Rightarrow> (Inl e, s1)
      | (None, s1) \<Rightarrow> (Inr (k, map_of c k), s1))"

text \<open>\<^verbatim>\<open>query.get()\<close>: the documents \<open>docs\<close> that the query selects, in its order.\<close>

definition query_get :: "state \<Rightarrow> 'd collection \<Rightarrow> (js_error + 'd collection) \<times> state" where
  "query_get s docs =
     (case respond s of
        (Some e, s1) \<Rightarrow> (Inl e, s1)
      | (None, s1) \<Rightarrow> (Inr docs, s1))"

definition alreadyExists :: js_error where
  "alreadyExists = Thrown (JNum 6) ''ALREADY_EXISTS''"

definition invalidData :: js_error where
  "invalidData = Thrown JUndefined ''Cannot use undefined as a Firestore value''"

text \<open>\<^verbatim>\<open>collection.add(data)\<close> under the identifier \<open>nid\<close> that the backend draws for it:
  the new document is created, never overwritten.\<close>

definition coll_add ::
  "state \<Rightarrow> 'd collection \<Rightarrow> string \<Rightarrow> 'd \<Rightarrow> (js_error + 'd collection) \<times> state" where
  "coll_add s c nid d =
     (case respond s of
        (Some e, s1) \<Rightarrow> (Inl e, s1)
      | (None, s1) \<Rightarrow>
          if nid \<in> fst ` set c then (Inl alreadyExists, s1) else (Inr (c @ [(nid, d)]), s1))"

definition coll_delete :: "'d collection \<Rightarrow> string \<Rightarrow> 'd collection" where
  "coll_delete c k = filter (\<lambda>p. fst p \<noteq> k) c"

definition coll_set :: "'d collection \<Rightarrow> string \<Rightarrow> 'd \<Rightarrow> 'd collection" where
  "coll_set c k d = (if k \<in> fst ` set c then map (\<lambda>p. if fst p = k then (k, d) else p) c else c @ [(k, d)])"

text \<open>The order of \<^verbatim>\<open>orderBy('date', 'asc')\<close>: \<^verbatim>\<open>null\<close> before numbers before strings.\<close>

fun fs_rank :: "jsval \<Rightarrow> nat" where
  "fs_rank JUndefined = 0"
| "fs_rank JNull = 0"
| "fs_rank (JNum n) = 1"
| "fs_rank (JStr s) = 2"

fun fs_lt :: "jsval \<Rightarrow> jsval \<Rightarrow> bool" where
  "fs_lt (JNum a) (JNum b) = (a < b)"
| "fs_lt (JStr a) (JStr b) = str_lt a b"
| "fs_lt a b = (fs_rank a < fs_rank b)"

definition orderBy_date :: "event_data collection \<Rightarrow> event_data collection" where
  "orderBy_date c = stable_sort (\<lambda>a b. fs_lt (date (snd a)) (date (snd b))) (by_name c)"

section \<open>The data layer (\<^verbatim>\<open>config/db.js\<close>)\<close>

subsection \<open>Helper functions\<close>

definition docToObject :: "'d snapshot \<Rightarrow> (string \<times> 'd) option" where
  "docToObject doc = (case snd doc of None \<Rightarrow> None | Some d \<Rightarrow> Some (fst doc, d))"

text \<open>Every document of a query snapshot exists.\<close>

definition snapshotToArray :: "'d collection \<Rightarrow> (string \<times> 'd) list" where
  "snapshotToArray snapshot = List.map_filter (\<lambda>doc. docToObject (fst doc, Some (snd doc))) snapshot"

definition notFound :: "js_error \<Rightarrow> bool" where
  "notFound error = (code error = JNum 5 \<or> code error = JStr ''NOT_FOUND'')"

subsection \<open>Events\<close>

definition getAllEvents :: "state \<Rightarrow> (js_error + event list) \<times> state" where
  "getAllEvents s =
     (case query_get s (orderBy_date (events s)) of
        (Inr snapshot, s1) \<Rightarrow> (Inr (snapshotToArray snapshot), emit [Log] s1)
      | (Inl error, s1) \<Rightarrow>
          if notFound error then (Inr [], emit [Err] s1) else (Inr [], emit [Err] s1))"

definition getEventById :: "state \<Rightarrow> jsval \<Rightarrow> (js_error + event option) \<times> state" where
  "getEventById s id' =
     (case doc_get s (events s) (String_js id') of
        (Inr doc, s1) \<Rightarrow> (Inr (docToObject doc), s1)
      | (Inl error, s1) \<Rightarrow>
          if notFound error then (Inr None, s1) else (Inr None, emit [Err] s1))"

definition notEnabled :: js_error where
  "notEnabled =
     Thrown JUndefined ''Firestore database not enabled. Please enable it in Firebase Console.''"

definition create_catch :: "js_error \<Rightarrow> state \<Rightarrow> (js_error + 'a) \<times> state" where
  "create_catch error s =
     (if notFound error then (Inl notEnabled, emit [Err, Err, Err, Err] s)
      else (Inl error, emit [Err] s))"

definition createEvent ::
  "state \<Rightarrow> string \<Rightarrow> jsval \<Rightarrow> jsval \<Rightarrow> jsval \<Rightarrow> (js_error + event option) \<times> state" where
  "createEvent s nid t d v =
     (let s0 = emit [Log] s in
      if t = JUndefined \<or> d = JUndefined \<or> v = JUndefined then create_catch invalidData s0
      else
        case coll_add s0 (events s0) nid
               \<lparr>title = t, date = d, venue = v, createdAt = clock s0\<rparr> of
          (Inl error, s1) \<Rightarrow> create_catch error s1
        | (Inr c, s1) \<Rightarrow>
            (let s2 = s1\<lparr>events := c\<rparr> in
             case doc_get s2 (events s2) nid of
               (Inl error, s3) \<Rightarrow> create_catch error s3
             | (Inr doc, s3) \<Rightarrow> (Inr (docToObject doc), emit [Log] s3)))"

definition deleteEvent :: "state \<Rightarrow> jsval \<Rightarrow> (js_error + bool) \<times> state" where
  "deleteEvent s id' =
     (case respond s of
        (Some error, s1) \<Rightarrow> (Inl error, emit [Err] s1)
      | (None, s1) \<Rightarrow>
          (Inr True, emit [Log] (s1\<lparr>events := coll_delete (events s1) (String_js id')\<rparr>)))"

subsection \<open>Registrations\<close>

definition getAllRegistrations :: "state \<Rightarrow> (js_error + registration list) \<times> state" where
  "getAllRegistrations s =
     (case query_get s (by_name (registrations s)) of
        (Inr snapshot, s1) \<Rightarrow> (Inr (snapshotToArray snapshot), s1)
      | (Inl error, s1) \<Rightarrow> (Inr [], emit [Err] s1))"

definition getRegistrationById :: "state \<Rightarrow> jsval \<Rightarrow> (js_error + registration option) \<times> state" where
  "getRegistrationById s id' =
     (case doc_get s (registrations s) (String_js id') of
        (Inr doc, s1) \<Rightarrow> (Inr (docToObject doc), s1)
      | (Inl error, s1) \<Rightarrow> (Inr None, emit [Err] s1))"

definition getRegistrationsByEventId :: "state \<Rightarrow> jsval \<Rightarrow> (js_error + registration list) \<times> state" where
  "getRegistrationsByEventId s eventId =
     (case query_get s
             (filter (\<lambda>r. event_id (snd r) = String_js eventId) (by_name (registrations s))) of
        (Inr snapshot, s1) \<Rightarrow> (Inr (snapshotToArray snapshot), s1)
      | (Inl error, s1) \<Rightarrow> (Inr [], emit [Err] s1))"

definition typeError :: js_error where
  "typeError = Thrown JUndefined ''TypeError''"

definition isEmailRegisteredForEvent :: "state \<Rightarrow> jsval \<Rightarrow> jsval \<Rightarrow> (js_error + bool) \<times> state" where
  "isEmailRegisteredForEvent s email' eventId =
     (case email' of
        JStr e \<Rightarrow>
          (case query_get s
                  (take 1 (filter (\<lambda>r. email (snd r) = toLowerCase e
                                      \<and> event_id (snd r) = String_js eventId)
                             (by_name (registrations s)))) of
             (Inr snapshot, s1) \<Rightarrow> (Inr (snapshot \<noteq> []), s1)
           | (Inl error, s1) \<Rightarrow> (Inr False, emit [Err] s1))
      | _ \<Rightarrow> (Inr False, emit [Err] s))"

definition createRegistration ::
  "state \<Rightarrow> string \<Rightarrow> jsval \<Rightarrow> jsval \<Rightarrow> jsval \<Rightarrow> (js_error + registration option) \<times> state" where
  "createRegistration s nid name' email' event_id' =
     (case (name', email') of
        (JStr n, JStr e) \<Rightarrow>
          (case coll_add s (registrations s) nid
                  \<lparr>name = trim n, email = toLowerCase (trim e),
                   event_id = String_js event_id', r_createdAt = clock s\<rparr> of
             (Inl error, s1) \<Rightarrow> (Inl error, emit [Err] s1)
           | (Inr c, s1) \<Rightarrow>
               (let s2 = s1\<lparr>registrations := c\<rparr> in
                case doc_get s2 (registrations s2) nid of
                  (Inl error, s3) \<Rightarrow> (Inl error, emit [Err] s3)
                | (Inr doc, s3) \<Rightarrow> (Inr (docToObject doc), s3)))
      | _ \<Rightarrow> (Inl typeError, emit [Err] s))"

text \<open>
  The rows of the join. \<^verbatim>\<open>eventsMap\<close> is a plain object: besides the events stored in it
  by identifier, it answers the property names it inherits from \<^verbatim>\<open>Object.prototype\<close>, with
  values that are truthy and carry no \<^verbatim>\<open>title\<close>, \<^verbatim>\<open>date\<close> or \<^verbatim>\<open>venue\<close>. (A document
  identifier is never \<^verbatim>\<open>__proto__\<close>: the store reserves the identifiers of that shape.)
\<close>

record joined =
  j_id :: string
  j_name :: string
  j_email :: string
  event_title :: jsval
  event_date :: jsval
  event_venue :: jsval

datatype 'a property = Own 'a | Inherited | Absent

definition objectPrototype :: "string list" where
  "objectPrototype =
     [''constructor'', ''__defineGetter__'', ''__defineSetter__'', ''hasOwnProperty'',
      ''__lookupGetter__'', ''__lookupSetter__'', ''isPrototypeOf'', ''propertyIsEnumerable'',
      ''toString'', ''valueOf'', ''__proto__'', ''toLocaleString'']"

definition getProp :: "(string \<rightharpoonup> 'a) \<Rightarrow> string \<Rightarrow> 'a property" where
  "getProp m k =
     (case m k of
        Some v \<Rightarrow> Own v
      | None \<Rightarrow> if k \<in> set objectPrototype then Inherited else Absent)"

definition eventsMap :: "event list \<Rightarrow> (string \<rightharpoonup> event)" where
  "eventsMap evs = foldl (\<lambda>m ev. m(fst ev \<mapsto> ev)) Map.empty evs"

definition joinRow :: "(string \<rightharpoonup> event) \<Rightarrow> registration \<Rightarrow> joined option" where
  "joinRow m reg =
     (case getProp m (event_id (snd reg)) of
        Absent \<Rightarrow> None
      | Own ev \<Rightarrow>
          Some \<lparr>j_id = fst reg, j_name = name (snd reg), j_email = email (snd reg),
                event_title = title (snd ev), event_date = date (snd ev),
                event_venue = venue (snd ev)\<rparr>
      | Inherited \<Rightarrow>
          Some \<lparr>j_id = fst reg, j_name = name (snd reg), j_email = email (snd reg),
                event_title = JUndefined, event_date = JUndefined,
                event_venue = JUndefined\<rparr>)"

text \<open>The comparator \<^verbatim>\<open>(a, b) => parseInt(b.id) - parseInt(a.id)\<close>.\<close>

definition byIdDesc :: "joined \<Rightarrow> joined \<Rightarrow> int option" where
  "byIdDesc a b =
     (case (parseInt (j_id b), parseInt (j_id a)) of
        (Some pb, Some pa) \<Rightarrow> Some (pb - pa)
      | _ \<Rightarrow> None)"

definition joinRows :: "registration list \<Rightarrow> event list \<Rightarrow> joined list" where
  "joinRows regs evs = sort_js byIdDesc (List.map_filter (joinRow (eventsMap evs)) regs)"

definition getRegistrationsWithEvents :: "state \<Rightarrow> (js_error + joined list) \<times> state" where
  "getRegistrationsWithEvents s =
     (case getAllRegistrations s of
        (Inl error, s1) \<Rightarrow> (Inr [], emit [Err] s1)
      | (Inr regs, s1) \<Rightarrow>
          (case getAllEvents s1 of
             (Inl error, s2) \<Rightarrow> (Inr [], emit [Err] s2)
           | (Inr evs, s2) \<Rightarrow> (Inr (joinRows regs evs), s2)))"

subsection \<open>Users\<close>

definition getUserByUid :: "state \<Rightarrow> string \<Rightarrow> (js_error + user option) \<times> state" where
  "getUserByUid s uid' =
     (case doc_get s (users s) uid' of
        (Inr doc, s1) \<Rightarrow> (Inr (docToObject doc), s1)
      | (Inl error, s1) \<Rightarrow>
          if notFound error then (Inr None, s1) else (Inr None, emit [Err] s1))"

definition createUser ::
  "state \<Rightarrow> string \<Rightarrow> jsval \<Rightarrow> jsval \<Rightarrow> jsval \<Rightarrow> (js_error + user option) \<times> state" where
  "createUser s uid' email' name' role' =
     (case getUserByUid s uid' of
        (Inl error, s1) \<Rightarrow> create_catch error s1
      | (Inr (Some existing), s1) \<Rightarrow> (Inr (Some existing), s1)
      | (Inr None, s1) \<Rightarrow>
          (let userDoc = \<lparr>uid = uid', u_email = email', u_name = or_js name' email',
                          role = or_js role' (JStr ''student''), u_createdAt = clock s1,
                          updatedAt = None\<rparr>
           in if u_email userDoc = JUndefined \<or> u_name userDoc = JUndefined
              then create_catch invalidData s1
              else
                case respond s1 of
                  (Some error, s2) \<Rightarrow> create_catch error s2
                | (None, s2) \<Rightarrow>
                    (let s3 = s2\<lparr>users := coll_set (users s2) uid' userDoc\<rparr> in
                     case doc_get s3 (users s3) uid' of
                       (Inl error, s4) \<Rightarrow> create_catch error s4
                     | (Inr doc, s4) \<Rightarrow> (Inr (docToObject doc), s4))))"

definition missingDocument :: js_error where
  "missingDocument = Thrown (JNum 5) ''NOT_FOUND''"

definition updateUserRole :: "state \<Rightarrow> string \<Rightarrow> jsval \<Rightarrow> (js_error + user option) \<times> state" where
  "updateUserRole s uid' role' =
     (if role' = JUndefined then (Inr None, emit [Err] s)
      else
        case respond s of
          (Some error, s1) \<Rightarrow> (Inr None, emit [Err] s1)
        | (None, s1) \<Rightarrow>
            (case map_of (users s1) uid' of
               None \<Rightarrow> (Inr None, emit [Err] s1)
             | Some u \<Rightarrow>
                 getUserByUid
                   (s1\<lparr>users := coll_set (users s1) uid'
                                  (u\<lparr>role := role', updatedAt := Some (clock s1)\<rparr>)\<rparr>)
                   uid'))"

subsection \<open>The query interface\<close>

text \<open>What \<^verbatim>\<open>db.query\<close> returns: an array whose elements are a packet
  \<^verbatim>\<open>{ insertId: id }\<close> or an array of rows; a row is an event, the synthetic row
  \<^verbatim>\<open>{ id: 1 }\<close>, or a row of the join.\<close>

datatype row = EventRow event | IdRow int | JoinRow joined

datatype relem = OkPacket string | Rows "row list"

definition query_catch :: "js_error \<Rightarrow> state \<Rightarrow> (js_error + relem list) \<times> state" where
  "query_catch error s = (Inl error, emit [Err, Err] s)"

definition upperSql :: "string \<Rightarrow> string" where
  "upperSql sql = collapse (toUpperCase (trim sql))"

definition isInsertEvent :: "string \<Rightarrow> bool" where
  "isInsertEvent sqlUpper =
     (startsWith sqlUpper ''INSERT INTO EVENTS'' \<or> includes_js sqlUpper ''INSERT INTO EVENTS'')"

definition isSelectEventById :: "string \<Rightarrow> bool" where
  "isSelectEventById sqlUpper =
     (includes_js sqlUpper ''SELECT'' \<and> includes_js sqlUpper ''FROM EVENTS''
      \<and> includes_js sqlUpper ''WHERE ID = ?'')"

definition isSelectEventId :: "string \<Rightarrow> bool" where
  "isSelectEventId sqlUpper = includes_js sqlUpper ''SELECT ID FROM EVENTS WHERE ID = ?''"

definition isSelectEvents :: "string \<Rightarrow> bool" where
  "isSelectEvents sqlUpper =
     (includes_js sqlUpper ''SELECT'' \<and> includes_js sqlUpper ''FROM EVENTS''
      \<and> \<not> includes_js sqlUpper ''WHERE'')"

definition isExistsRegistration :: "string \<Rightarrow> bool" where
  "isExistsRegistration sqlUpper =
     includes_js sqlUpper ''SELECT ID FROM REGISTRATIONS WHERE EMAIL = ? AND EVENT_ID = ?''"

definition isInsertRegistration :: "string \<Rightarrow> bool" where
  "isInsertRegistration sqlUpper = includes_js sqlUpper ''INSERT INTO REGISTRATIONS''"

definition isJoin :: "string \<Rightarrow> bool" where
  "isJoin sqlUpper =
     (includes_js sqlUpper ''FROM REGISTRATIONS R'' \<and> includes_js sqlUpper ''INNER JOIN EVENTS E'')"

definition eventRows :: "event option \<Rightarrow> relem list" where
  "eventRows ev = [Rows (map EventRow (List.map_filter (\<lambda>e. e) [ev]))]"

definition query :: "state \<Rightarrow> string \<Rightarrow> string \<Rightarrow> jsval list \<Rightarrow> (js_error + relem list) \<times> state" where
  "query s nid sql params =
     (let sqlUpper = upperSql sql; s0 = emit [Log, Log, Log] s in
      if isInsertEvent sqlUpper then
        (case createEvent (emit [Log] s0) nid (param params 0) (param params 1) (param params 2) of
           (Inl error, s1) \<Rightarrow> query_catch error s1
         | (Inr None, s1) \<Rightarrow> query_catch typeError (emit [Log] s1)
         | (Inr (Some ev), s1) \<Rightarrow> (Inr [OkPacket (fst ev)], emit [Log] s1))
      else if isSelectEventById sqlUpper then
        (case getEventById s0 (param params 0) of
           (Inl error, s1) \<Rightarrow> query_catch error s1
         | (Inr ev, s1) \<Rightarrow> (Inr (eventRows ev), s1))
      else if isSelectEventId sqlUpper then
        (case getEventById s0 (param params 0) of
           (Inl error, s1) \<Rightarrow> query_catch error s1
         | (Inr ev, s1) \<Rightarrow> (Inr (eventRows ev), s1))
      else if isSelectEvents sqlUpper then
        (case getAllEvents (emit [Log] s0) of
           (Inl error, s1) \<Rightarrow> query_catch error s1
         | (Inr evs, s1) \<Rightarrow> (Inr [Rows (map EventRow evs)], emit [Log] s1))
      else if isExistsRegistration sqlUpper then
        (case isEmailRegisteredForEvent s0 (param params 0) (param params 1) of
           (Inl error, s1) \<Rightarrow> query_catch error s1
         | (Inr exists, s1) \<Rightarrow> (Inr (if exists then [Rows [IdRow 1]] else [Rows []]), s1))
      else if isInsertRegistration sqlUpper then
        (case createRegistration s0 nid (param params 0) (param params 1) (param params 2) of
           (Inl error, s1) \<Rightarrow> query_catch error s1
         | (Inr None, s1) \<Rightarrow> query_catch typeError s1
         | (Inr (Some reg), s1) \<Rightarrow> (Inr [OkPacket (fst reg)], s1))
      else if isJoin sqlUpper then
        (case getRegistrationsWithEvents s0 of
           (Inl error, s1) \<Rightarrow> query_catch error s1
         | (Inr rows, s1) \<Rightarrow> (Inr [Rows (map JoinRow rows)], s1))
      else (Inr [Rows []], emit [Warn, Warn, Warn, Warn, Warn, Warn] s0))"

section \<open>Role lookup (\<^verbatim>\<open>config/auth.js\<close>)\<close>

definition getUserRole :: "state \<Rightarrow> string \<Rightarrow> (js_error + jsval) \<times> state" where
  "getUserRole s uid' =
     (case getUserByUid s uid' of
        (Inr user, s1) \<Rightarrow>
          (Inr (case user of Some u \<Rightarrow> role (snd u) | None \<Rightarrow> JStr ''student''), s1)
      | (Inl error, s1) \<Rightarrow> (Inr (JStr ''student''), s1))"

section \<open>The registration route (\<^verbatim>\<open>routes/registerRoutes.js\<close>)\<close>

text \<open>The handler of \<^verbatim>\<open>POST /register\<close>, after the authentication middleware has let the
  request pass: the three form fields come from the request body, and the response is
  a redirect.\<close>

datatype response = Redirect string

text \<open>The test \<^verbatim>\<open>/^[^\s@]+@[^\s@]+\.[^\s@]+$/\<close>: a non-empty run of characters that are
  neither white space nor \<^verbatim>\<open>@\<close>, an \<^verbatim>\<open>@\<close>, and a second such run up to the end that has a
  dot which is neither its first nor its last character.\<close>

definition atomChar :: "char \<Rightarrow> bool" where
  "atomChar c = (\<not> isSpace c \<and> c \<noteq> CHR ''@'')"

definition emailRegex_test :: "string \<Rightarrow> bool" where
  "emailRegex_test s =
     (takeWhile atomChar s \<noteq> [] \<and>
      (case dropWhile atomChar s of
         [] \<Rightarrow> False
       | c # host \<Rightarrow>
           c = CHR ''@'' \<and> list_all atomChar host \<and> CHR ''.'' \<in> set (butlast (tl host))))"

text \<open>\<^verbatim>\<open>const [rows] = await db.query(...)\<close>, then \<^verbatim>\<open>!rows || rows.length === 0\<close> and
  \<^verbatim>\<open>rows && rows.length > 0\<close>.\<close>

definition firstElem :: "relem list \<Rightarrow> relem option" where
  "firstElem res = (case res of [] \<Rightarrow> None | x # _ \<Rightarrow> Some x)"

fun noRows :: "relem option \<Rightarrow> bool" where
  "noRows None = True"
| "noRows (Some (Rows rs)) = (rs = [])"
| "noRows (Some (OkPacket i)) = False"

fun hasRows :: "relem option \<Rightarrow> bool" where
  "hasRows None = False"
| "hasRows (Some (Rows rs)) = (rs \<noteq> [])"
| "hasRows (Some (OkPacket i)) = False"

definition trim_js :: "jsval \<Rightarrow> js_error + jsval" where
  "trim_js v = (case v of JStr s \<Rightarrow> Inr (JStr (trim s)) | _ \<Rightarrow> Inl typeError)"

definition register_failed :: "state \<Rightarrow> response \<times> state" where
  "register_failed s =
     (Redirect ''/?message=Registration failed. Please try again.&type=danger'', emit [Err] s)"

definition registerPage :: "jsval \<Rightarrow> string \<Rightarrow> response" where
  "registerPage event_id' rest = Redirect (''/register/'' @ String_js event_id' @ rest)"

definition postRegister ::
  "state \<Rightarrow> string \<Rightarrow> jsval \<Rightarrow> jsval \<Rightarrow> jsval \<Rightarrow> response \<times> state" where
  "postRegister s nid name' email' event_id' =
     (if \<not> truthy name' \<or> \<not> truthy email' \<or> \<not> truthy event_id' then
        (registerPage event_id' ''?message=All fields are required&type=danger'', s)
      else if \<not> emailRegex_test (String_js email') then
        (registerPage event_id' ''?message=Invalid email format&type=danger'', s)
      else
        case query s nid ''SELECT id FROM events WHERE id = ?'' [event_id'] of
          (Inl error, s1) \<Rightarrow> register_failed s1
        | (Inr res, s1) \<Rightarrow>
            if noRows (firstElem res) then
              (registerPage event_id' ''?message=Event not found&type=danger'', s1)
            else
              case query s1 nid ''SELECT id FROM registrations WHERE email = ? AND event_id = ?''
                     [email', event_id'] of
                (Inl error, s2) \<Rightarrow> register_failed s2
              | (Inr res2, s2) \<Rightarrow>
                  if hasRows (firstElem res2) then
                    (registerPage event_id'
                       ''?message=You are already registered for this event&type=warning'', s2)
                  else
                    case trim_js name' of
                      Inl error \<Rightarrow> register_failed s2
                    | Inr n \<Rightarrow>
                        (case trim_js email' of
                           Inl error \<Rightarrow> register_failed s2
                         | Inr e \<Rightarrow>
                             (case query s2 nid
                                     ''INSERT INTO registrations (name, email, event_id) VALUES (?, ?, ?)''
                                     [n, e, event_id'] of
                                (Inl error, s3) \<Rightarrow> register_failed s3
                              | (Inr res3, s3) \<Rightarrow>
                                  (Redirect ''/?message=Registration successful!&type=success'', s3))))"

section \<open>Notions used by the properties\<close>

text \<open>The branch that the chain of tests in \<^const>\<open>query\<close> takes on a normalized text: the
  first test that holds.\<close>

datatype pattern =
  InsertEvent | SelectEventById | SelectEventId | SelectEvents
  | ExistsRegistration | InsertRegistration | Join | Unmatched

definition dispatch :: "string \<Rightarrow> pattern" where
  "dispatch sqlUpper =
     (if isInsertEvent sqlUpper then InsertEvent
      else if isSelectEventById sqlUpper then SelectEventById
      else if isSelectEventId sqlUpper then SelectEventId
      else if isSelectEvents sqlUpper then SelectEvents
      else if isExistsRegistration sqlUpper then ExistsRegistration
      else if isInsertRegistration sqlUpper then InsertRegistration
      else if isJoin sqlUpper then Join
      else Unmatched)"

text \<open>A text is recognized when one of the tests of \<^const>\<open>query\<close> holds of it.\<close>

definition recognized :: "string \<Rightarrow> bool" where
  "recognized sqlUpper =
     (isInsertEvent sqlUpper \<or> isSelectEventById sqlUpper \<or> isSelectEventId sqlUpper
      \<or> isSelectEvents sqlUpper \<or> isExistsRegistration sqlUpper
      \<or> isInsertRegistration sqlUpper \<or> isJoin sqlUpper)"

text \<open>The next call to the backend is served: no failure is due for it.\<close>

definition served :: "state \<Rightarrow> bool" where
  "served s = (case faults s of [] \<Rightarrow> True | f # fs \<Rightarrow> f = None)"

definition nextFault :: "state \<Rightarrow> js_error option" where
  "nextFault s = (case faults s of [] \<Rightarrow> None | f # fs \<Rightarrow> f)"

text \<open>Sample data: two events and three registrations, as in the spec's example of the
  join.\<close>

definition sampleEvents :: "event_data collection" where
  "sampleEvents =
     [(''1'', \<lparr>title = JStr ''Tech Innovators Summit'', date = JStr ''2025-12-01'',
              venue = JStr ''Auditorium A'', createdAt = 1\<rparr>),
      (''2'', \<lparr>title = JStr ''AI Workshop'', date = JStr ''2025-12-05'',
              venue = JStr ''Lab 3'', createdAt = 2\<rparr>)]"

definition sampleRegistrations :: "registration_data collection" where
  "sampleRegistrations =
     [(''9'', \<lparr>name = ''Asha'', email = ''asha@muj.in'', event_id = ''1'', r_createdAt = 3\<rparr>),
      (''10'', \<lparr>name = ''Ravi'', email = ''ravi@muj.in'', event_id = ''2'', r_createdAt = 4\<rparr>),
      (''11'', \<lparr>name = ''Meera'', email = ''meera@muj.in'', event_id = ''1'', r_createdAt = 5\<rparr>)]"

definition sampleUsers :: "user_data collection" where
  "sampleUsers =
     [(''u1'', \<lparr>uid = ''u1'', u_email = JStr ''head@muj.in'', u_name = JStr ''Head'',
               role = JStr ''admin'', u_createdAt = 1, updatedAt = None\<rparr>)]"

definition sampleState :: state where
  "sampleState =
     \<lparr>events = sampleEvents, registrations = sampleRegistrations, users = sampleUsers,
      faults = [], clock = 6, console = []\<rparr>"

definition unavailable :: js_error where
  "unavailable = Thrown (JNum 14) ''UNAVAILABLE''"

text \<open>The rows of the join as the spec words them: a registration whose \<^verbatim>\<open>event_id\<close> is
  the identifier of an event gives the flattened row with the fields of that event; any
  other registration gives no row.\<close>

definition join_spec :: "event_data collection \<Rightarrow> registration \<Rightarrow> joined option" where
  "join_spec evs reg =
     (case map_of evs (event_id (snd reg)) of
        None \<Rightarrow> None
      | Some ev \<Rightarrow>
          Some \<lparr>j_id = fst reg, j_name = name (snd reg), j_email = email (snd reg),
                event_title = title ev, event_date = date ev, event_venue = venue ev\<rparr>)"

text \<open>An identifier is numeric when \<^const>\<open>parseInt\<close> reads a number from it that a JavaScript
  number holds exactly; \<open>idNum\<close> is that number for a row.\<close>

definition numericId :: "string \<Rightarrow> bool" where
  "numericId k = (case parseInt k of None \<Rightarrow> False | Some n \<Rightarrow> \<bar>n\<bar> \<le> 9007199254740991)"

definition idNum :: "joined \<Rightarrow> int" where
  "idNum r = the (parseInt (j_id r))"

text \<open>The text of the admin panel's query, its line breaks written as spaces.\<close>

definition adminQuery :: string where
  "adminQuery =
     ''SELECT r.id, r.name, r.email, e.title as event_title, e.date as event_date, e.venue as event_venue FROM registrations r INNER JOIN events e ON r.event_id = e.id ORDER BY r.id DESC''"

text \<open>Registrations under identifiers of the kind the store generates; the third one
  names no event.\<close>

definition generatedRegistrations :: "registration_data collection" where
  "generatedRegistrations =
     [(''pT9xB'', \<lparr>name = ''Ravi'', email = ''ravi@muj.in'', event_id = ''2'', r_createdAt = 4\<rparr>),
      (''Hk2mQ'', \<lparr>name = ''Asha'', email = ''asha@muj.in'', event_id = ''1'', r_createdAt = 3\<rparr>),
      (''w3LrD'', \<lparr>name = ''Meera'', email = ''meera@muj.in'', event_id = ''constructor'',
                  r_createdAt = 5\<rparr>)]"

definition generatedState :: state where
  "generatedState = sampleState\<lparr>registrations := generatedRegistrations\<rparr>"

text \<open>A registration names an inherited property when its \<^verbatim>\<open>event_id\<close> is the identifier
  of no event and is one of the property names that a plain object inherits.\<close>

definition namesInherited :: "event_data collection \<Rightarrow> registration \<Rightarrow> bool" where
  "namesInherited evs reg =
     (map_of evs (event_id (snd reg)) = None \<and> event_id (snd reg) \<in> set objectPrototype)"

text \<open>The sample data with two more registrations: one names an inherited property, one
  an event that does not exist.\<close>

definition mixedState :: state where
  "mixedState =
     sampleState\<lparr>registrations :=
       sampleRegistrations @
       [(''12'', \<lparr>name = ''Kabir'', email = ''kabir@muj.in'', event_id = ''toString'',
                 r_createdAt = 6\<rparr>),
        (''13'', \<lparr>name = ''Zoya'', email = ''zoya@muj.in'', event_id = ''99'',
                 r_createdAt = 7\<rparr>)]\<rparr>"

section \<open>Basic facts\<close>

lemma respond_rejected: "faults s = Some e # fs \<Longrightarrow> respond s = (Some e, s\<lparr>faults := fs\<rparr>)"
  by (simp add: respond_def)

lemma mset_insert_by: "mset (insert_by lt x xs) = add_mset x (mset xs)"
  by (induction xs) auto

lemma mset_stable_sort: "mset (stable_sort lt xs) = mset xs"
  by (induction xs) (auto simp: stable_sort_def mset_insert_by)

lemma set_stable_sort: "set (stable_sort lt xs) = set xs"
  by (metis mset_stable_sort set_mset_mset)

lemma set_by_name: "set (by_name c) = set c"
  by (simp add: by_name_def set_stable_sort)

lemma snapshotToArray_id: "snapshotToArray snap = snap"
  by (induction snap) (auto simp: snapshotToArray_def docToObject_def List.map_filter_simps)

lemma respond_alt: "respond s = (nextFault s, s\<lparr>faults := tl (faults s)\<rparr>)"
  by (cases "faults s") (simp_all add: respond_def nextFault_def)

lemma served_iff: "served s \<longleftrightarrow> nextFault s = None"
  by (simp add: served_def nextFault_def split: list.splits)

lemma nextFault_emit [simp]: "nextFault (emit ls s) = nextFault s"
  by (simp add: nextFault_def emit_def)

lemma map_of_snoc_fresh: "k \<notin> fst ` set c \<Longrightarrow> map_of (c @ [(k, d)]) k = Some d"
  by (induction c) auto

lemma in_fst_image: "(k, v) \<in> set c \<Longrightarrow> k \<in> fst ` set c"
  by force

section \<open>Unrecognized query texts\<close>

text \<open>
  C2. A query text on which none of the tests of \<^const>\<open>query\<close> holds, with any parameter
  list, returns the empty result \<^verbatim>\<open>[[]]\<close>: nothing is raised, no call reaches the store,
  and besides the three entry lines the console receives warnings only.
\<close>

theorem query_unmatched_empty:
  assumes "\<not> recognized (upperSql sql)"
  shows "query s nid sql params
           = (Inr [Rows []], emit [Log, Log, Log, Warn, Warn, Warn, Warn, Warn, Warn] s)"
  using assms by (simp add: query_def recognized_def Let_def emit_def)

theorem query_unmatched_empty_witness:
  "\<not> recognized (upperSql ''DROP TABLE events'')
   \<and> query sampleState ''n1'' ''DROP TABLE events'' [JStr ''1'']
       = (Inr [Rows []], emit [Log, Log, Log, Warn, Warn, Warn, Warn, Warn, Warn] sampleState)"
proof -
  have h: "\<not> recognized (upperSql ''DROP TABLE events'')"
    by code_simp
  from h query_unmatched_empty [OF h] show ?thesis
    by simp
qed

section \<open>Role lookup fails closed\<close>

text \<open>
  C10. \<^const>\<open>getUserRole\<close> never raises. It returns the stored role when the lookup is
  served and the user exists, and \<^verbatim>\<open>'student'\<close> (so never \<^verbatim>\<open>'admin'\<close>) when the user is
  absent or the store rejects the lookup, whatever the failure.
\<close>

theorem getUserRole_fails_closed:
  "(\<exists>r s1. getUserRole s u = (Inr r, s1))
   \<and> (\<forall>d. served s \<and> map_of (users s) u = Some d \<longrightarrow> fst (getUserRole s u) = Inr (role d))
   \<and> (\<not> served s \<or> map_of (users s) u = None
        \<longrightarrow> fst (getUserRole s u) = Inr (JStr ''student'')
            \<and> fst (getUserRole s u) \<noteq> Inr (JStr ''admin''))"
proof (cases "nextFault s")
  case None
  then have "served s"
    by (simp add: served_iff)
  with None show ?thesis
    by (auto simp: getUserRole_def getUserByUid_def doc_get_def docToObject_def respond_alt
        split: option.splits)
next
  case (Some e)
  then have "\<not> served s"
    by (simp add: served_iff)
  with Some show ?thesis
    by (auto simp: getUserRole_def getUserByUid_def doc_get_def respond_alt)
qed

theorem getUserRole_fails_closed_witness:
  "fst (getUserRole sampleState ''u1'') = Inr (JStr ''admin'')
   \<and> fst (getUserRole sampleState ''u2'') = Inr (JStr ''student'')
   \<and> fst (getUserRole (sampleState\<lparr>faults := [Some unavailable]\<rparr>) ''u1'')
       = Inr (JStr ''student'')"
proof -
  have a: "served sampleState \<and> map_of (users sampleState) ''u1'' = Some (snd (hd sampleUsers))"
    by code_simp
  have b: "map_of (users sampleState) ''u2'' = None"
    by code_simp
  have c: "\<not> served (sampleState\<lparr>faults := [Some unavailable]\<rparr>)"
    by code_simp
  have r: "role (snd (hd sampleUsers)) = JStr ''admin''"
    by code_simp
  from a r getUserRole_fails_closed [of sampleState "''u1''"]
  have 1: "fst (getUserRole sampleState ''u1'') = Inr (JStr ''admin'')"
    by auto
  from b getUserRole_fails_closed [of sampleState "''u2''"]
  have 2: "fst (getUserRole sampleState ''u2'') = Inr (JStr ''student'')"
    by blast
  from c getUserRole_fails_closed [of "sampleState\<lparr>faults := [Some unavailable]\<rparr>" "''u1''"]
  have 3: "fst (getUserRole (sampleState\<lparr>faults := [Some unavailable]\<rparr>) ''u1'')
             = Inr (JStr ''student'')"
    by blast
  from 1 2 3 show ?thesis by simp
qed

section \<open>Creating an event and reading it back\<close>

lemma createEvent_Inr:
  assumes "createEvent s nid t d v = (Inr r, s1)"
  shows "r = Some (nid, \<lparr>title = t, date = d, venue = v, createdAt = clock s\<rparr>)
         \<and> events s1 = events s @ [(nid, \<lparr>title = t, date = d, venue = v, createdAt = clock s\<rparr>)]
         \<and> nid \<notin> fst ` set (events s)
         \<and> registrations s1 = registrations s \<and> users s1 = users s"
  using assms
  by (auto simp: createEvent_def coll_add_def doc_get_def create_catch_def emit_def
      docToObject_def Let_def respond_alt map_add_def
      split: option.splits if_splits dest!: map_of_SomeD in_fst_image)

lemma getEventById_served:
  "served s \<Longrightarrow>
     fst (getEventById s i)
       = Inr (map_option (Pair (String_js i)) (map_of (events s) (String_js i)))"
  by (auto simp: getEventById_def doc_get_def respond_alt served_iff docToObject_def
      split: option.splits)

lemma createEvent_ok:
  assumes "faults s = []" "t \<noteq> JUndefined" "d \<noteq> JUndefined" "v \<noteq> JUndefined"
    "nid \<notin> fst ` set (events s)"
  shows "createEvent s nid t d v
           = (Inr (Some (nid, \<lparr>title = t, date = d, venue = v, createdAt = clock s\<rparr>)),
              emit [Log, Log]
                (s\<lparr>events := events s @ [(nid, \<lparr>title = t, date = d, venue = v, createdAt = clock s\<rparr>)]\<rparr>))"
  using assms map_of_snoc_fresh [of nid "events s" "\<lparr>title = t, date = d, venue = v, createdAt = clock s\<rparr>"]
  by (simp add: createEvent_def coll_add_def doc_get_def respond_def emit_def docToObject_def Let_def)

text \<open>
  C5. With the store answering, a title, a date and a venue that are defined and a new
  identifier that is not taken, \<^const>\<open>createEvent\<close> returns a record. And whenever it
  returns one, the record has exactly the title, date and venue supplied, and
  \<^const>\<open>getEventById\<close> on the identifier of that record, served by the store, yields the
  same record.
\<close>

theorem createEvent_roundtrip:
  "(faults s = [] \<and> t \<noteq> JUndefined \<and> d \<noteq> JUndefined \<and> v \<noteq> JUndefined
      \<and> nid \<notin> fst ` set (events s)
    \<longrightarrow> (\<exists>ev s1. createEvent s nid t d v = (Inr (Some ev), s1)))
   \<and> (\<forall>r s1. createEvent s nid t d v = (Inr r, s1) \<and> served s1 \<longrightarrow>
         (\<exists>ev. r = Some ev \<and> title (snd ev) = t \<and> date (snd ev) = d \<and> venue (snd ev) = v
            \<and> fst (getEventById s1 (JStr (fst ev))) = Inr (Some ev)))"
proof (intro conjI allI impI)
  assume "faults s = [] \<and> t \<noteq> JUndefined \<and> d \<noteq> JUndefined \<and> v \<noteq> JUndefined
      \<and> nid \<notin> fst ` set (events s)"
  then show "\<exists>ev s1. createEvent s nid t d v = (Inr (Some ev), s1)"
    by (simp add: createEvent_ok)
next
  fix r s1
  assume a: "createEvent s nid t d v = (Inr r, s1) \<and> served s1"
  let ?d = "\<lparr>title = t, date = d, venue = v, createdAt = clock s\<rparr>"
  from a createEvent_Inr [of s nid t d v r s1]
  have r: "r = Some (nid, ?d)" and ev: "events s1 = events s @ [(nid, ?d)]"
    and fresh: "nid \<notin> fst ` set (events s)"
    by simp_all
  from ev fresh have "map_of (events s1) nid = Some ?d"
    using map_of_snoc_fresh [of nid "events s" ?d] by simp
  with a have "fst (getEventById s1 (JStr nid)) = Inr (Some (nid, ?d))"
    by (simp add: getEventById_served)
  with r show "\<exists>ev. r = Some ev \<and> title (snd ev) = t \<and> date (snd ev) = d \<and> venue (snd ev) = v
            \<and> fst (getEventById s1 (JStr (fst ev))) = Inr (Some ev)"
    by simp
qed

theorem createEvent_roundtrip_witness:
  "fst (createEvent sampleState ''e3'' (JStr ''Cultural Fest'') (JStr ''2025-12-10'')
          (JStr ''Main Ground''))
     = Inr (Some (''e3'', \<lparr>title = JStr ''Cultural Fest'', date = JStr ''2025-12-10'',
                           venue = JStr ''Main Ground'', createdAt = 6\<rparr>))
   \<and> served (snd (createEvent sampleState ''e3'' (JStr ''Cultural Fest'') (JStr ''2025-12-10'')
                    (JStr ''Main Ground'')))
   \<and> fst (getEventById
            (snd (createEvent sampleState ''e3'' (JStr ''Cultural Fest'') (JStr ''2025-12-10'')
                    (JStr ''Main Ground'')))
            (JStr ''e3''))
       = Inr (Some (''e3'', \<lparr>title = JStr ''Cultural Fest'', date = JStr ''2025-12-10'',
                             venue = JStr ''Main Ground'', createdAt = 6\<rparr>))"
proof -
  let ?c = "createEvent sampleState ''e3'' (JStr ''Cultural Fest'') (JStr ''2025-12-10'')
              (JStr ''Main Ground'')"
  let ?ev = "(''e3'', \<lparr>title = JStr ''Cultural Fest'', date = JStr ''2025-12-10'',
                        venue = JStr ''Main Ground'', createdAt = 6\<rparr>)"
  have h: "faults sampleState = [] \<and> JStr ''Cultural Fest'' \<noteq> JUndefined
           \<and> JStr ''2025-12-10'' \<noteq> JUndefined \<and> JStr ''Main Ground'' \<noteq> JUndefined
           \<and> ''e3'' \<notin> fst ` set (events sampleState)"
    by code_simp
  have c: "fst ?c = Inr (Some ?ev)"
    by code_simp
  have sv: "served (snd ?c)"
    by code_simp
  from c have eq: "?c = (Inr (Some ?ev), snd ?c)"
    by (metis prod.collapse)
  from createEvent_roundtrip [of sampleState "JStr ''Cultural Fest''" "JStr ''2025-12-10''"
      "JStr ''Main Ground''" "''e3''"] h eq sv c
  show ?thesis
    by auto
qed

section \<open>Deleting an event\<close>

lemma getRegistrationsByEventId_served:
  "served s \<Longrightarrow>
     fst (getRegistrationsByEventId s i)
       = Inr (filter (\<lambda>r. event_id (snd r) = String_js i) (by_name (registrations s)))"
  by (simp add: getRegistrationsByEventId_def query_get_def respond_alt served_iff
      snapshotToArray_id)

lemma deleteEvent_frame:
  assumes "deleteEvent s i = (r, s1)"
  shows "registrations s1 = registrations s \<and> users s1 = users s
         \<and> (r = Inr True \<longrightarrow> events s1 = filter (\<lambda>p. fst p \<noteq> String_js i) (events s))
         \<and> (r \<noteq> Inr True \<longrightarrow> events s1 = events s \<and> (\<exists>e. r = Inl e))"
  using assms
  by (auto simp: deleteEvent_def respond_alt emit_def coll_delete_def split: option.splits)

text \<open>
  C7. Whatever \<^const>\<open>deleteEvent\<close> does for an event identifier, the registrations and the
  users are as before; when it succeeds, exactly the documents of the events collection
  under that identifier are gone. A query by \<^verbatim>\<open>event_id\<close> afterwards, served by the store,
  returns the registrations of that event as they were: each of them is still there.
\<close>

theorem deleteEvent_no_cascade:
  assumes "deleteEvent s i = (r, s1)"
  shows "registrations s1 = registrations s \<and> users s1 = users s
         \<and> (r = Inr True \<longrightarrow> events s1 = filter (\<lambda>p. fst p \<noteq> String_js i) (events s))
         \<and> (served s1 \<longrightarrow>
              fst (getRegistrationsByEventId s1 i)
                = Inr (filter (\<lambda>reg. event_id (snd reg) = String_js i) (by_name (registrations s)))
              \<and> (\<forall>reg\<in>set (registrations s). event_id (snd reg) = String_js i \<longrightarrow>
                    reg \<in> set (filter (\<lambda>reg. event_id (snd reg) = String_js i)
                                 (by_name (registrations s)))))"
proof -
  from deleteEvent_frame [OF assms]
  have f: "registrations s1 = registrations s" "users s1 = users s"
    "r = Inr True \<longrightarrow> events s1 = filter (\<lambda>p. fst p \<noteq> String_js i) (events s)"
    by simp_all
  show ?thesis
    using f by (simp add: getRegistrationsByEventId_served set_by_name)
qed

theorem deleteEvent_no_cascade_witness:
  "fst (deleteEvent sampleState (JStr ''1'')) = Inr True
   \<and> registrations (snd (deleteEvent sampleState (JStr ''1''))) = sampleRegistrations
   \<and> events (snd (deleteEvent sampleState (JStr ''1'')))
       = [(''2'', \<lparr>title = JStr ''AI Workshop'', date = JStr ''2025-12-05'',
                   venue = JStr ''Lab 3'', createdAt = 2\<rparr>)]
   \<and> served (snd (deleteEvent sampleState (JStr ''1'')))
   \<and> fst (getRegistrationsByEventId (snd (deleteEvent sampleState (JStr ''1''))) (JStr ''1''))
       = Inr [(''11'', \<lparr>name = ''Meera'', email = ''meera@muj.in'', event_id = ''1'',
                        r_createdAt = 5\<rparr>),
              (''9'', \<lparr>name = ''Asha'', email = ''asha@muj.in'', event_id = ''1'',
                       r_createdAt = 3\<rparr>)]"
proof -
  let ?r = "deleteEvent sampleState (JStr ''1'')"
  have c: "fst ?r = Inr True"
    by code_simp
  have sv: "served (snd ?r)"
    by code_simp
  have regs: "registrations sampleState = sampleRegistrations"
    by (simp add: sampleState_def)
  have evs: "filter (\<lambda>p. fst p \<noteq> String_js (JStr ''1'')) (events sampleState)
               = [(''2'', \<lparr>title = JStr ''AI Workshop'', date = JStr ''2025-12-05'',
                           venue = JStr ''Lab 3'', createdAt = 2\<rparr>)]"
    by code_simp
  have q: "filter (\<lambda>reg. event_id (snd reg) = String_js (JStr ''1''))
             (by_name (registrations sampleState))
             = [(''11'', \<lparr>name = ''Meera'', email = ''meera@muj.in'', event_id = ''1'',
                          r_createdAt = 5\<rparr>),
                (''9'', \<lparr>name = ''Asha'', email = ''asha@muj.in'', event_id = ''1'',
                         r_createdAt = 3\<rparr>)]"
    by code_simp
  from c have eq: "?r = (Inr True, snd ?r)"
    by (metis prod.collapse)
  from deleteEvent_no_cascade [OF eq] c sv regs evs q show ?thesis
    by simp
qed

section \<open>Creating a user twice\<close>

lemma map_of_coll_set: "map_of (coll_set c k d) k = Some d"
proof (cases "k \<in> fst ` set c")
  case False
  then show ?thesis using map_of_snoc_fresh [of k c d] by (simp add: coll_set_def)
next
  case True
  have "k \<in> fst ` set c \<Longrightarrow> map_of (map (\<lambda>p. if fst p = k then (k, d) else p) c) k = Some d"
    by (induction c) auto
  with True show ?thesis by (simp add: coll_set_def)
qed

lemma keys_coll_set: "map fst (coll_set c k d) = (if k \<in> fst ` set c then map fst c else map fst c @ [k])"
proof -
  have "map fst (map (\<lambda>p. if fst p = k then (k, d) else p) c) = map fst c"
    by (induction c) auto
  then show ?thesis by (simp add: coll_set_def)
qed

lemma count_key_one:
  "distinct (map fst c) \<Longrightarrow> k \<in> fst ` set c \<Longrightarrow> length (filter (\<lambda>p. fst p = k) c) = 1"
proof (induction c)
  case Nil
  then show ?case by simp
next
  case (Cons p c)
  show ?case
  proof (cases "fst p = k")
    case True
    with Cons.prems have "k \<notin> fst ` set c" by auto
    then have "filter (\<lambda>p. fst p = k) c = []"
      by (auto simp: filter_empty_conv)
    with True show ?thesis by simp
  next
    case False
    with Cons show ?thesis by auto
  qed
qed

lemma getUserByUid_served:
  "served s \<Longrightarrow>
     getUserByUid s u = (Inr (map_option (Pair u) (map_of (users s) u)), s\<lparr>faults := tl (faults s)\<rparr>)"
  by (auto simp: getUserByUid_def doc_get_def respond_alt served_iff docToObject_def
      split: option.splits)

lemma getUserByUid_frame:
  assumes "getUserByUid s u = (x, s1)"
  shows "users s1 = users s \<and> events s1 = events s \<and> registrations s1 = registrations s \<and> clock s1 = clock s
         \<and> (\<exists>y. x = Inr y \<and> (\<forall>p. y = Some p \<longrightarrow> fst p = u \<and> map_of (users s) u = Some (snd p)))"
  using assms
  by (auto simp: getUserByUid_def doc_get_def respond_alt docToObject_def emit_def
      split: option.splits if_splits)

lemma createUser_Inr:
  assumes "createUser s u e n r = (Inr x, s1)"
  shows "\<exists>d. x = Some (u, d) \<and> map_of (users s1) u = Some d
             \<and> (users s1 = users s \<or> users s1 = coll_set (users s) u d)
             \<and> events s1 = events s \<and> registrations s1 = registrations s"
proof (cases "getUserByUid s u")
  case (Pair y s0)
  from getUserByUid_frame [OF Pair] obtain z where
    fr: "users s0 = users s" "events s0 = events s" "registrations s0 = registrations s"
    and y: "y = Inr z" and z: "\<forall>p. z = Some p \<longrightarrow> fst p = u \<and> map_of (users s) u = Some (snd p)"
    by blast
  show ?thesis
  proof (cases z)
    case (Some p)
    with Pair y assms have "x = Some p" "s1 = s0"
      by (simp_all add: createUser_def)
    with Some z fr show ?thesis
      by (cases p) auto
  next
    case None
    with Pair y assms fr show ?thesis
      by (auto simp: createUser_def Let_def create_catch_def doc_get_def respond_alt
          docToObject_def map_of_coll_set split: if_splits option.splits)
  qed
qed

text \<open>
  C6, as the code has it. With the lookup served, \<^const>\<open>createUser\<close> for an identity that
  has a stored user returns that stored record and leaves the users as they are. And once
  \<^const>\<open>createUser\<close> has returned a record, a second call for the same identity (with any
  other fields) whose lookup is served returns the same record and changes no user; the
  collection, its identifiers distinct at the start, holds exactly one document for that
  identity.
\<close>

theorem createUser_idempotent:
  "(\<forall>d. served s \<and> map_of (users s) u = Some d \<longrightarrow>
        fst (createUser s u e n r) = Inr (Some (u, d))
        \<and> users (snd (createUser s u e n r)) = users s)
   \<and> (\<forall>x s1. createUser s u e n r = (Inr x, s1) \<and> served s1 \<longrightarrow>
        fst (createUser s1 u e' n' r') = Inr x
        \<and> users (snd (createUser s1 u e' n' r')) = users s1
        \<and> (distinct (map fst (users s)) \<longrightarrow> length (filter (\<lambda>p. fst p = u) (users s1)) = 1))"
proof (intro conjI allI impI)
  fix d assume a: "served s \<and> map_of (users s) u = Some d"
  then show "fst (createUser s u e n r) = Inr (Some (u, d))"
    by (simp add: createUser_def getUserByUid_served)
  from a show "users (snd (createUser s u e n r)) = users s"
    by (simp add: createUser_def getUserByUid_served)
next
  fix x s1 assume a: "createUser s u e n r = (Inr x, s1) \<and> served s1"
  from createUser_Inr [of s u e n r x s1] a obtain d where
    x: "x = Some (u, d)" and m: "map_of (users s1) u = Some d"
    and us: "users s1 = users s \<or> users s1 = coll_set (users s) u d"
    by blast
  from a m x show "fst (createUser s1 u e' n' r') = Inr x"
    by (simp add: createUser_def getUserByUid_served)
  from a m show "users (snd (createUser s1 u e' n' r')) = users s1"
    by (simp add: createUser_def getUserByUid_served)
  assume dist: "distinct (map fst (users s))"
  from m have k: "u \<in> fst ` set (users s1)"
    by (metis map_of_eq_None_iff option.distinct(1))
  from us dist have "distinct (map fst (users s1))"
    by (auto simp: keys_coll_set)
  with k show "length (filter (\<lambda>p. fst p = u) (users s1)) = 1"
    by (rule count_key_one [rotated])
qed

theorem createUser_idempotent_witness:
  "fst (createUser sampleState ''u1'' (JStr ''x@muj.in'') JUndefined (JStr ''student''))
     = Inr (Some (''u1'', \<lparr>uid = ''u1'', u_email = JStr ''head@muj.in'', u_name = JStr ''Head'',
                           role = JStr ''admin'', u_createdAt = 1, updatedAt = None\<rparr>))
   \<and> users (snd (createUser sampleState ''u1'' (JStr ''x@muj.in'') JUndefined (JStr ''student'')))
       = sampleUsers
   \<and> fst (createUser sampleState ''u2'' (JStr ''new@muj.in'') JUndefined JUndefined)
       = Inr (Some (''u2'', \<lparr>uid = ''u2'', u_email = JStr ''new@muj.in'',
                             u_name = JStr ''new@muj.in'', role = JStr ''student'',
                             u_createdAt = 6, updatedAt = None\<rparr>))
   \<and> fst (createUser (snd (createUser sampleState ''u2'' (JStr ''new@muj.in'') JUndefined JUndefined))
            ''u2'' (JStr ''other@muj.in'') (JStr ''Other'') (JStr ''admin''))
       = Inr (Some (''u2'', \<lparr>uid = ''u2'', u_email = JStr ''new@muj.in'',
                             u_name = JStr ''new@muj.in'', role = JStr ''student'',
                             u_createdAt = 6, updatedAt = None\<rparr>))
   \<and> length (filter (\<lambda>p. fst p = ''u2'')
               (users (snd (createUser sampleState ''u2'' (JStr ''new@muj.in'') JUndefined
                              JUndefined)))) = 1"
proof -
  let ?u1 = "\<lparr>uid = ''u1'', u_email = JStr ''head@muj.in'', u_name = JStr ''Head'',
              role = JStr ''admin'', u_createdAt = 1, updatedAt = None\<rparr>"
  let ?u2 = "\<lparr>uid = ''u2'', u_email = JStr ''new@muj.in'', u_name = JStr ''new@muj.in'',
              role = JStr ''student'', u_createdAt = 6, updatedAt = None\<rparr>"
  let ?c = "createUser sampleState ''u2'' (JStr ''new@muj.in'') JUndefined JUndefined"
  have a: "served sampleState \<and> map_of (users sampleState) ''u1'' = Some ?u1"
    by code_simp
  have us: "users sampleState = sampleUsers"
    by (simp add: sampleState_def)
  have c: "fst ?c = Inr (Some (''u2'', ?u2))"
    by code_simp
  have sv: "served (snd ?c)"
    by code_simp
  have dist: "distinct (map fst (users sampleState))"
    by code_simp
  from c have eq: "?c = (Inr (Some (''u2'', ?u2)), snd ?c)"
    by (metis prod.collapse)
  from createUser_idempotent [of sampleState "''u1''" "JStr ''x@muj.in''" JUndefined
      "JStr ''student''"] a us
  have 1: "fst (createUser sampleState ''u1'' (JStr ''x@muj.in'') JUndefined (JStr ''student''))
             = Inr (Some (''u1'', ?u1))
           \<and> users (snd (createUser sampleState ''u1'' (JStr ''x@muj.in'') JUndefined
                           (JStr ''student''))) = sampleUsers"
    by simp
  from createUser_idempotent [of sampleState "''u2''" "JStr ''new@muj.in''" JUndefined
      JUndefined "JStr ''other@muj.in''" "JStr ''Other''" "JStr ''admin''"] eq sv dist
  have 2: "fst (createUser (snd ?c) ''u2'' (JStr ''other@muj.in'') (JStr ''Other'') (JStr ''admin''))
             = Inr (Some (''u2'', ?u2))
           \<and> length (filter (\<lambda>p. fst p = ''u2'') (users (snd ?c))) = 1"
    by blast
  from 1 2 c show ?thesis
    by simp
qed

text \<open>
  C6, as the spec states it, fails when the store rejects the lookup: \<^const>\<open>getUserByUid\<close>
  returns \<^verbatim>\<open>null\<close> for every error, so \<^const>\<open>createUser\<close> takes the stored user for absent
  and writes. Here the administrator \<^verbatim>\<open>u1\<close> is replaced by a student record; and when the
  write is rejected too, \<^const>\<open>createUser\<close> raises.
\<close>

theorem createUser_overwrites_after_rejected_lookup:
  "map_of (users sampleState) ''u1''
     = Some \<lparr>uid = ''u1'', u_email = JStr ''head@muj.in'', u_name = JStr ''Head'',
             role = JStr ''admin'', u_createdAt = 1, updatedAt = None\<rparr>
   \<and> fst (createUser (sampleState\<lparr>faults := [Some unavailable]\<rparr>) ''u1''
            (JStr ''head@muj.in'') JUndefined JUndefined)
       = Inr (Some (''u1'', \<lparr>uid = ''u1'', u_email = JStr ''head@muj.in'',
                             u_name = JStr ''head@muj.in'', role = JStr ''student'',
                             u_createdAt = 6, updatedAt = None\<rparr>))
   \<and> users (snd (createUser (sampleState\<lparr>faults := [Some unavailable]\<rparr>) ''u1''
                    (JStr ''head@muj.in'') JUndefined JUndefined))
       = [(''u1'', \<lparr>uid = ''u1'', u_email = JStr ''head@muj.in'',
                    u_name = JStr ''head@muj.in'', role = JStr ''student'',
                    u_createdAt = 6, updatedAt = None\<rparr>)]
   \<and> fst (createUser (sampleState\<lparr>faults := [Some unavailable, Some unavailable]\<rparr>) ''u1''
            (JStr ''head@muj.in'') JUndefined JUndefined)
       = Inl unavailable"
  by code_simp

section \<open>Store failures\<close>

lemma lookups_rejected:
  assumes "faults s = Some err # fs"
  shows "fst (getAllEvents s) = Inr []" "fst (getEventById s i) = Inr None"
    "fst (getAllRegistrations s) = Inr []" "fst (getRegistrationById s i) = Inr None"
    "fst (getRegistrationsByEventId s i) = Inr []"
    "fst (isEmailRegisteredForEvent s em i) = Inr False"
    "fst (getUserByUid s u) = Inr None"
  using assms
  by (auto simp: getAllEvents_def getEventById_def getAllRegistrations_def
      getRegistrationById_def getRegistrationsByEventId_def isEmailRegisteredForEvent_def
      getUserByUid_def query_get_def doc_get_def respond_rejected split: jsval.splits)

lemma writes_rejected:
  assumes "faults s = Some err # fs"
  shows "fst (deleteEvent s i) = Inl err"
    "fst (createRegistration s nid (JStr n) (JStr em) i) = Inl err"
    "t \<noteq> JUndefined \<and> d \<noteq> JUndefined \<and> v \<noteq> JUndefined \<longrightarrow>
       fst (createEvent s nid t d v) = Inl (if notFound err then notEnabled else err)"
  using assms
  by (auto simp: deleteEvent_def createRegistration_def createEvent_def coll_add_def
      create_catch_def respond_rejected respond_def emit_def Let_def)

lemma createUser_rejected:
  assumes "faults s = Some err # Some err2 # fs" "e \<noteq> JUndefined"
  shows "fst (createUser s u e n r) = Inl (if notFound err2 then notEnabled else err2)"
proof -
  have nm: "or_js n e \<noteq> JUndefined"
    using assms(2) by (cases n) (auto simp: or_js_def)
  have "getUserByUid s u = (Inr None, snd (getUserByUid s u))
          \<and> faults (snd (getUserByUid s u)) = Some err2 # fs"
    using assms(1)
    by (simp add: getUserByUid_def doc_get_def respond_rejected emit_def)
  then obtain s1 where g: "getUserByUid s u = (Inr None, s1)" and f1: "faults s1 = Some err2 # fs"
    by blast
  from g f1 nm assms(2) show ?thesis
    by (simp add: createUser_def Let_def create_catch_def respond_rejected)
qed

text \<open>
  C3, as the code has it. When the store rejects the call of a lookup, with the not-found
  code or with any other error, the lookup returns \<^verbatim>\<open>null\<close>, an empty list or \<^verbatim>\<open>false\<close>:
  no lookup raises. The store's errors reach the caller from the writes only:
  \<^const>\<open>deleteEvent\<close> and \<^const>\<open>createRegistration\<close> raise the error as it is, and
  \<^const>\<open>createEvent\<close> and \<^const>\<open>createUser\<close> raise it with a not-found error replaced by
  the error that carries the message about the database not being enabled.
\<close>

theorem store_error_policy:
  assumes "faults s = Some err # fs"
  shows "fst (getAllEvents s) = Inr [] \<and> fst (getEventById s i) = Inr None
    \<and> fst (getAllRegistrations s) = Inr [] \<and> fst (getRegistrationById s i) = Inr None
    \<and> fst (getRegistrationsByEventId s i) = Inr []
    \<and> fst (isEmailRegisteredForEvent s em i) = Inr False
    \<and> fst (getUserByUid s u) = Inr None
    \<and> fst (deleteEvent s i) = Inl err
    \<and> fst (createRegistration s nid (JStr n) (JStr a) i) = Inl err
    \<and> (t \<noteq> JUndefined \<and> d \<noteq> JUndefined \<and> v \<noteq> JUndefined \<longrightarrow>
         fst (createEvent s nid t d v) = Inl (if notFound err then notEnabled else err))
    \<and> (\<forall>err2 rest. fs = Some err2 # rest \<and> e \<noteq> JUndefined \<longrightarrow>
         fst (createUser s u e nm r) = Inl (if notFound err2 then notEnabled else err2))
    \<and> message notEnabled
         = ''Firestore database not enabled. Please enable it in Firebase Console.''"
  using lookups_rejected [OF assms] writes_rejected [OF assms] createUser_rejected assms
  by (simp add: notEnabled_def)

theorem store_error_policy_witness:
  "fst (getEventById (sampleState\<lparr>faults := [Some unavailable, Some missingDocument]\<rparr>)
          (JStr ''1'')) = Inr None
   \<and> fst (getAllEvents (sampleState\<lparr>faults := [Some unavailable, Some missingDocument]\<rparr>))
       = Inr []
   \<and> fst (deleteEvent (sampleState\<lparr>faults := [Some unavailable, Some missingDocument]\<rparr>)
            (JStr ''1'')) = Inl unavailable
   \<and> fst (createEvent (sampleState\<lparr>faults := [Some unavailable, Some missingDocument]\<rparr>)
            ''e3'' (JStr ''Cultural Fest'') (JStr ''2025-12-10'') (JStr ''Main Ground''))
       = Inl unavailable
   \<and> fst (createUser (sampleState\<lparr>faults := [Some unavailable, Some missingDocument]\<rparr>)
            ''u1'' (JStr ''head@muj.in'') JUndefined JUndefined) = Inl notEnabled"
proof -
  let ?s = "sampleState\<lparr>faults := [Some unavailable, Some missingDocument]\<rparr>"
  have f: "faults ?s = Some unavailable # [Some missingDocument]"
    by simp
  have n1: "\<not> notFound unavailable" and n2: "notFound missingDocument"
    by code_simp+
  from store_error_policy [OF f, where i = "JStr ''1''" and nid = "''e3''"
      and t = "JStr ''Cultural Fest''" and d = "JStr ''2025-12-10''"
      and v = "JStr ''Main Ground''" and e = "JStr ''head@muj.in''" and u = "''u1''"
      and nm = JUndefined and r = JUndefined] n1 n2
  show ?thesis
    by simp
qed

text \<open>
  C3, as the spec states it, fails on the second half: an error of the store other than
  not-found does not reach the caller of a lookup. Here the store answers
  \<^verbatim>\<open>UNAVAILABLE\<close> and the lookups return \<^verbatim>\<open>null\<close> and the empty list.
\<close>

theorem lookup_swallows_unavailable:
  "\<not> notFound unavailable
   \<and> fst (getEventById (sampleState\<lparr>faults := [Some unavailable]\<rparr>) (JStr ''1'')) = Inr None
   \<and> fst (getAllEvents (sampleState\<lparr>faults := [Some unavailable]\<rparr>)) = Inr []
   \<and> fst (getUserByUid (sampleState\<lparr>faults := [Some unavailable]\<rparr>) ''u1'') = Inr None"
  by code_simp

section \<open>The branches of the query interface\<close>

lemma emit_emit: "emit a (emit b s) = emit (b @ a) s"
  by (simp add: emit_def)

lemma emit_sel [simp]:
  "events (emit ls s) = events s" "registrations (emit ls s) = registrations s"
  "users (emit ls s) = users s" "faults (emit ls s) = faults s" "clock (emit ls s) = clock s"
  "console (emit ls s) = console s @ ls"
  by (simp_all add: emit_def)

lemma query_InsertEvent:
  "includes_js (upperSql sql) ''INSERT INTO EVENTS'' \<Longrightarrow>
     query s nid sql ps =
       (case createEvent (emit [Log, Log, Log, Log] s) nid (param ps 0) (param ps 1) (param ps 2) of
           (Inl error, s1) \<Rightarrow> query_catch error s1
         | (Inr None, s1) \<Rightarrow> query_catch typeError (emit [Log] s1)
         | (Inr (Some ev), s1) \<Rightarrow> (Inr [OkPacket (fst ev)], emit [Log] s1))"
  by (simp add: query_def isInsertEvent_def Let_def emit_emit)

lemma query_SelectEventById:
  "dispatch (upperSql sql) = SelectEventById \<Longrightarrow>
     query s nid sql ps =
       (case getEventById (emit [Log, Log, Log] s) (param ps 0) of
           (Inl error, s1) \<Rightarrow> query_catch error s1
         | (Inr ev, s1) \<Rightarrow> (Inr (eventRows ev), s1))"
  by (simp add: query_def dispatch_def Let_def split: if_splits)

lemma query_ExistsRegistration:
  "dispatch (upperSql sql) = ExistsRegistration \<Longrightarrow>
     query s nid sql ps =
       (case isEmailRegisteredForEvent (emit [Log, Log, Log] s) (param ps 0) (param ps 1) of
           (Inl error, s1) \<Rightarrow> query_catch error s1
         | (Inr exists, s1) \<Rightarrow> (Inr (if exists then [Rows [IdRow 1]] else [Rows []]), s1))"
  by (simp add: query_def dispatch_def Let_def split: if_splits)

lemma query_InsertRegistration:
  "dispatch (upperSql sql) = InsertRegistration \<Longrightarrow>
     query s nid sql ps =
       (case createRegistration (emit [Log, Log, Log] s) nid (param ps 0) (param ps 1) (param ps 2) of
           (Inl error, s1) \<Rightarrow> query_catch error s1
         | (Inr None, s1) \<Rightarrow> query_catch typeError s1
         | (Inr (Some reg), s1) \<Rightarrow> (Inr [OkPacket (fst reg)], s1))"
  by (simp add: query_def dispatch_def Let_def split: if_splits)

lemma query_Join:
  "dispatch (upperSql sql) = Join \<Longrightarrow>
     query s nid sql ps =
       (case getRegistrationsWithEvents (emit [Log, Log, Log] s) of
           (Inl error, s1) \<Rightarrow> query_catch error s1
         | (Inr rows, s1) \<Rightarrow> (Inr [Rows (map JoinRow rows)], s1))"
  by (simp add: query_def dispatch_def Let_def split: if_splits)

lemma createRegistration_ok:
  assumes "faults s = []" "nid \<notin> fst ` set (registrations s)"
  shows "createRegistration s nid (JStr n) (JStr e) i
           = (Inr (Some (nid, \<lparr>name = trim n, email = toLowerCase (trim e),
                                event_id = String_js i, r_createdAt = clock s\<rparr>)),
              s\<lparr>registrations := registrations s @
                   [(nid, \<lparr>name = trim n, email = toLowerCase (trim e),
                           event_id = String_js i, r_createdAt = clock s\<rparr>)]\<rparr>)"
  using assms map_of_snoc_fresh [of nid "registrations s" "\<lparr>name = trim n, email = toLowerCase (trim e),
                           event_id = String_js i, r_createdAt = clock s\<rparr>"]
  by (simp add: createRegistration_def coll_add_def doc_get_def respond_def emit_def docToObject_def Let_def)

lemma dispatch_insert_registration_text:
  "dispatch (upperSql ''INSERT INTO registrations (name, email, event_id) VALUES (?, ?, ?)'')
     = InsertRegistration"
  by code_simp

lemma dispatch_exists_text:
  "dispatch (upperSql ''SELECT id FROM registrations WHERE email = ? AND event_id = ?'')
     = ExistsRegistration"
  by code_simp

lemma dispatch_event_text:
  "dispatch (upperSql ''SELECT id FROM events WHERE id = ?'') = SelectEventById"
  by code_simp

section \<open>Inserting through the query interface\<close>

text \<open>
  C8, as the code has it. With a store that answers and accepts the write (the three
  values defined, the new identifier not taken), a text that contains
  \<^verbatim>\<open>INSERT INTO EVENTS\<close> creates the event from the parameters in their order, and a text
  that contains \<^verbatim>\<open>INSERT INTO REGISTRATIONS\<close> and on which no earlier test of the chain
  holds creates the registration from a name, an email and an event identifier, trimmed
  and lower-cased as \<^const>\<open>createRegistration\<close> does; each returns the one-element array
  with the packet whose \<^verbatim>\<open>insertId\<close> is the identifier of the new document.
\<close>

theorem query_insert:
  "(includes_js (upperSql sql) ''INSERT INTO EVENTS'' \<and> faults s = []
      \<and> t \<noteq> JUndefined \<and> d \<noteq> JUndefined \<and> v \<noteq> JUndefined \<and> nid \<notin> fst ` set (events s)
    \<longrightarrow> fst (query s nid sql [t, d, v]) = Inr [OkPacket nid]
        \<and> events (snd (query s nid sql [t, d, v]))
            = events s @ [(nid, \<lparr>title = t, date = d, venue = v, createdAt = clock s\<rparr>)])
   \<and> (dispatch (upperSql sql) = InsertRegistration \<and> faults s = []
      \<and> nid \<notin> fst ` set (registrations s)
    \<longrightarrow> fst (query s nid sql [JStr n, JStr e, i]) = Inr [OkPacket nid]
        \<and> registrations (snd (query s nid sql [JStr n, JStr e, i]))
            = registrations s @ [(nid, \<lparr>name = trim n, email = toLowerCase (trim e),
                                         event_id = String_js i, r_createdAt = clock s\<rparr>)])"
  by (simp add: query_InsertEvent query_InsertRegistration createEvent_ok createRegistration_ok
      param_def)

theorem query_insert_witness:
  "fst (query sampleState ''e3'' ''INSERT INTO events (title, date, venue) VALUES (?, ?, ?)''
          [JStr ''Cultural Fest'', JStr ''2025-12-10'', JStr ''Main Ground''])
     = Inr [OkPacket ''e3'']
   \<and> events (snd (query sampleState ''e3''
                     ''INSERT INTO events (title, date, venue) VALUES (?, ?, ?)''
                     [JStr ''Cultural Fest'', JStr ''2025-12-10'', JStr ''Main Ground'']))
       = sampleEvents @ [(''e3'', \<lparr>title = JStr ''Cultural Fest'', date = JStr ''2025-12-10'',
                                   venue = JStr ''Main Ground'', createdAt = 6\<rparr>)]
   \<and> fst (query sampleState ''n1''
            ''INSERT INTO registrations (name, email, event_id) VALUES (?, ?, ?)''
            [JStr '' Bob '', JStr ''Bob@MUJ.in'', JStr ''2''])
       = Inr [OkPacket ''n1'']
   \<and> registrations (snd (query sampleState ''n1''
                           ''INSERT INTO registrations (name, email, event_id) VALUES (?, ?, ?)''
                           [JStr '' Bob '', JStr ''Bob@MUJ.in'', JStr ''2'']))
       = sampleRegistrations @ [(''n1'', \<lparr>name = ''Bob'', email = ''bob@muj.in'',
                                          event_id = ''2'', r_createdAt = 6\<rparr>)]"
proof -
  have a: "includes_js (upperSql ''INSERT INTO events (title, date, venue) VALUES (?, ?, ?)'')
             ''INSERT INTO EVENTS''"
    by code_simp
  have f: "faults sampleState = []" and ev: "events sampleState = sampleEvents"
    and rg: "registrations sampleState = sampleRegistrations" and ck: "clock sampleState = 6"
    by (simp_all add: sampleState_def)
  have fr1: "''e3'' \<notin> fst ` set (events sampleState)"
    by code_simp
  have fr2: "''n1'' \<notin> fst ` set (registrations sampleState)"
    by code_simp
  have tr: "trim '' Bob '' = ''Bob''" and lw: "toLowerCase (trim ''Bob@MUJ.in'') = ''bob@muj.in''"
    by code_simp+
  from query_insert [of "''INSERT INTO events (title, date, venue) VALUES (?, ?, ?)''"
      sampleState "JStr ''Cultural Fest''" "JStr ''2025-12-10''" "JStr ''Main Ground''" "''e3''"]
    a f fr1 ev ck
  have 1: "fst (query sampleState ''e3'' ''INSERT INTO events (title, date, venue) VALUES (?, ?, ?)''
                  [JStr ''Cultural Fest'', JStr ''2025-12-10'', JStr ''Main Ground''])
             = Inr [OkPacket ''e3'']
           \<and> events (snd (query sampleState ''e3''
                     ''INSERT INTO events (title, date, venue) VALUES (?, ?, ?)''
                     [JStr ''Cultural Fest'', JStr ''2025-12-10'', JStr ''Main Ground'']))
               = sampleEvents @ [(''e3'', \<lparr>title = JStr ''Cultural Fest'',
                                    date = JStr ''2025-12-10'', venue = JStr ''Main Ground'',
                                    createdAt = 6\<rparr>)]"
    by simp
  from query_insert [of "''INSERT INTO registrations (name, email, event_id) VALUES (?, ?, ?)''"
      sampleState _ _ _ "''n1''" "'' Bob ''" "''Bob@MUJ.in''" "JStr ''2''"]
    dispatch_insert_registration_text f fr2 rg ck tr lw
  have 2: "fst (query sampleState ''n1''
                  ''INSERT INTO registrations (name, email, event_id) VALUES (?, ?, ?)''
                  [JStr '' Bob '', JStr ''Bob@MUJ.in'', JStr ''2''])
             = Inr [OkPacket ''n1'']
           \<and> registrations (snd (query sampleState ''n1''
                           ''INSERT INTO registrations (name, email, event_id) VALUES (?, ?, ?)''
                           [JStr '' Bob '', JStr ''Bob@MUJ.in'', JStr ''2'']))
               = sampleRegistrations @ [(''n1'', \<lparr>name = ''Bob'', email = ''bob@muj.in'',
                                          event_id = ''2'', r_createdAt = 6\<rparr>)]"
    by simp
  from 1 2 show ?thesis
    by simp
qed

text \<open>
  C8, as the spec states it, fails for a text that contains \<^verbatim>\<open>INSERT INTO REGISTRATIONS\<close>
  and on which an earlier test holds: this one also selects from the events, so the
  chain lists the events and no registration is created.
\<close>

theorem insert_registration_text_shadowed:
  "includes_js (upperSql ''INSERT INTO registrations SELECT title, date, id FROM events'')
     ''INSERT INTO REGISTRATIONS''
   \<and> fst (query sampleState ''n1'' ''INSERT INTO registrations SELECT title, date, id FROM events''
            [JStr ''Asha'', JStr ''asha@muj.in'', JStr ''2''])
       = Inr [Rows (map EventRow sampleEvents)]
   \<and> registrations (snd (query sampleState ''n1''
                           ''INSERT INTO registrations SELECT title, date, id FROM events''
                           [JStr ''Asha'', JStr ''asha@muj.in'', JStr ''2'']))
       = sampleRegistrations"
  by code_simp

section \<open>Emails, white space and letter case\<close>

lemma lower_char_idem: "lower_char (lower_char c) = lower_char c"
  by (auto simp: lower_char_def isUpper_def)

lemma toLowerCase_idem: "toLowerCase (toLowerCase s) = toLowerCase s"
  by (simp add: toLowerCase_def lower_char_idem)

lemma isSpace_of_char: "isSpace c \<longleftrightarrow> (of_char c :: nat) \<in> {9, 10, 11, 12, 13, 32}"
proof -
  have e: "c = d \<longleftrightarrow> (of_char c :: nat) = of_char d" for d
    by simp
  have "isSpace c \<longleftrightarrow> (of_char c :: nat) \<in> of_char ` set [CHR 0x09, CHR 0x0A, CHR 0x0B, CHR 0x0C, CHR 0x0D, CHR 0x20]"
    unfolding isSpace_def using inj_of_char [where ?'a = nat] by (simp only: inj_image_mem_iff)
  also have "of_char ` set [CHR 0x09, CHR 0x0A, CHR 0x0B, CHR 0x0C, CHR 0x0D, CHR 0x20] = {9, 10, 11, 12, 13, 32 :: nat}"
    by simp
  finally show ?thesis .
qed

lemma isSpace_lower_char: "isSpace (lower_char c) \<longleftrightarrow> isSpace c"
  by (auto simp: isSpace_of_char lower_char_def isUpper_def)

lemma dropWhile_none: "\<forall>c\<in>set s. \<not> P c \<Longrightarrow> dropWhile P s = s"
  by (cases s) auto

lemma no_space_trim: "\<forall>c\<in>set s. \<not> isSpace c \<Longrightarrow> trim s = s"
  by (simp add: trim_def dropWhile_none)

lemma emailRegex_no_space:
  assumes "emailRegex_test s"
  shows "\<forall>c\<in>set s. \<not> isSpace c"
proof -
  from assms obtain host where d: "dropWhile atomChar s = CHR ''@'' # host"
    and h: "list_all atomChar host"
    by (auto simp: emailRegex_test_def split: list.splits)
  have s: "s = takeWhile atomChar s @ CHR ''@'' # host"
    using d by (metis takeWhile_dropWhile_id)
  have 1: "\<forall>c\<in>set (takeWhile atomChar s). \<not> isSpace c"
    by (metis atomChar_def set_takeWhileD)
  have 2: "\<forall>c\<in>set host. \<not> isSpace c"
    using h by (auto simp: list_all_iff atomChar_def)
  have 3: "\<not> isSpace CHR ''@''"
    by code_simp
  have "set s = set (takeWhile atomChar s) \<union> {CHR ''@''} \<union> set host"
    by (subst s) auto
  with 1 2 3 show ?thesis by auto
qed

lemma padded_not_email: "trim e \<noteq> e \<Longrightarrow> \<not> emailRegex_test e"
  using emailRegex_no_space no_space_trim by blast

lemma isEmailRegisteredForEvent_ok:
  "faults s = [] \<Longrightarrow>
     isEmailRegisteredForEvent s (JStr e) i
       = (Inr (\<exists>reg\<in>set (registrations s).
                 email (snd reg) = toLowerCase e \<and> event_id (snd reg) = String_js i), s)"
proof -
  let ?P = "\<lambda>r. email (snd r) = toLowerCase e \<and> event_id (snd r) = String_js i"
  have "take 1 (filter ?P (by_name (registrations s))) \<noteq> [] \<longleftrightarrow> (\<exists>reg\<in>set (registrations s). ?P reg)"
    by (simp add: filter_empty_conv set_by_name)
  then show "faults s = [] \<Longrightarrow> ?thesis"
    by (simp add: isEmailRegisteredForEvent_def query_get_def respond_def)
qed

lemma isEmailRegisteredForEvent_value:
  "fst (isEmailRegisteredForEvent s (JStr e) i)
     = Inr (served s \<and> (\<exists>reg\<in>set (registrations s).
                 email (snd reg) = toLowerCase e \<and> event_id (snd reg) = String_js i))"
proof -
  let ?P = "\<lambda>r. email (snd r) = toLowerCase e \<and> event_id (snd r) = String_js i"
  have "take 1 (filter ?P (by_name (registrations s))) \<noteq> [] \<longleftrightarrow> (\<exists>reg\<in>set (registrations s). ?P reg)"
    by (simp add: filter_empty_conv set_by_name)
  then show ?thesis
    by (auto simp: isEmailRegisteredForEvent_def query_get_def respond_alt served_iff split: option.splits)
qed

lemma getEventById_ok:
  "faults s = [] \<Longrightarrow>
     getEventById s i = (Inr (map_option (Pair (String_js i)) (map_of (events s) (String_js i))), s)"
  by (auto simp: getEventById_def doc_get_def respond_def docToObject_def split: option.splits)

lemma trim_fixed: "s = [] \<or> (\<not> isSpace (hd s) \<and> \<not> isSpace (last s)) \<Longrightarrow> trim s = s"
proof (cases s)
  case Nil
  then show ?thesis by (simp add: trim_def)
next
  case (Cons a as)
  assume "s = [] \<or> (\<not> isSpace (hd s) \<and> \<not> isSpace (last s))"
  with Cons have h: "\<not> isSpace (hd s)" and l: "\<not> isSpace (last s)" and ne: "s \<noteq> []"
    by auto
  from h ne have 1: "dropWhile isSpace s = s"
    by (cases s) auto
  from l ne have "\<not> isSpace (hd (rev s))"
    by (simp add: hd_rev)
  then have 2: "dropWhile isSpace (rev s) = rev s"
    by (cases "rev s") auto
  from 1 2 show ?thesis by (simp add: trim_def)
qed

lemma trim_ends: "trim s = [] \<or> (\<not> isSpace (hd (trim s)) \<and> \<not> isSpace (last (trim s)))"
proof (cases "trim s = []")
  case True
  then show ?thesis by simp
next
  case False
  let ?t = "dropWhile isSpace s"
  let ?u = "dropWhile isSpace (rev ?t)"
  from False have u: "?u \<noteq> []" by (simp add: trim_def)
  then have hu: "\<not> isSpace (hd ?u)"
    by (rule hd_dropWhile)
  from u have t: "?t \<noteq> []"
    by (metis dropWhile.simps(1) rev.simps(1))
  then have ht: "\<not> isSpace (hd ?t)"
    by (rule hd_dropWhile)
  have "rev ?t = takeWhile isSpace (rev ?t) @ ?u"
    by simp
  with u have "last (rev ?t) = last ?u"
    by (metis last_appendR)
  with t have lu: "last ?u = hd ?t"
    by (simp add: last_rev)
  have "hd (trim s) = last ?u" "last (trim s) = hd ?u"
    using u by (simp_all add: trim_def hd_rev last_rev)
  with hu ht lu show ?thesis by simp
qed

lemma trim_eq_self_iff: "trim s = s \<longleftrightarrow> s = [] \<or> (\<not> isSpace (hd s) \<and> \<not> isSpace (last s))"
  using trim_fixed trim_ends by metis

lemma trim_lower_iff: "trim (toLowerCase s) = toLowerCase s \<longleftrightarrow> trim s = s"
  by (cases "s = []")
    (simp_all add: trim_eq_self_iff toLowerCase_def hd_map last_map isSpace_lower_char)

lemma stored_email_trimmed: "trim (toLowerCase (trim e)) = toLowerCase (trim e)"
  using trim_ends [of e] by (simp add: trim_lower_iff trim_fixed)

lemma createRegistration_Inr:
  assumes "createRegistration s nid (JStr n) (JStr e) i = (Inr r, s1)"
  shows "r = Some (nid, \<lparr>name = trim n, email = toLowerCase (trim e),
                         event_id = String_js i, r_createdAt = clock s\<rparr>)
         \<and> registrations s1 = registrations s @
               [(nid, \<lparr>name = trim n, email = toLowerCase (trim e),
                       event_id = String_js i, r_createdAt = clock s\<rparr>)]
         \<and> events s1 = events s \<and> users s1 = users s"
  using assms
  by (auto simp: createRegistration_def coll_add_def doc_get_def emit_def
      docToObject_def Let_def respond_alt map_add_def
      split: option.splits if_splits dest!: map_of_SomeD in_fst_image)

lemma postRegister_duplicate:
  assumes f: "faults s = []"
    and ex: "\<exists>reg\<in>set (registrations s). email (snd reg) = toLowerCase e \<and> event_id (snd reg) = String_js i"
    and ok: "truthy n" "truthy i" "emailRegex_test e"
    and ev: "map_of (events s) (String_js i) \<noteq> None"
  shows "postRegister s nid n (JStr e) i
           = (registerPage i ''?message=You are already registered for this event&type=warning'',
              emit [Log, Log, Log, Log, Log, Log] s)"
proof -
  from ok(3) have ne: "e \<noteq> []"
    by (auto simp: emailRegex_test_def)
  from ev obtain d where d: "map_of (events s) (String_js i) = Some d" by blast
  have q1: "query s nid ''SELECT id FROM events WHERE id = ?'' [i]
              = (Inr (eventRows (Some (String_js i, d))), emit [Log, Log, Log] s)"
    using f d by (simp add: query_SelectEventById [OF dispatch_event_text] getEventById_ok param_def)
  have q2: "query (emit [Log, Log, Log] s) nid
              ''SELECT id FROM registrations WHERE email = ? AND event_id = ?'' [JStr e, i]
              = (Inr [Rows [IdRow 1]], emit [Log, Log, Log, Log, Log, Log] s)"
    using f ex
    by (simp add: query_ExistsRegistration [OF dispatch_exists_text]
        isEmailRegisteredForEvent_ok param_def emit_emit)
  show ?thesis
    using ok ne q1 q2
    by (simp add: postRegister_def eventRows_def firstElem_def List.map_filter_simps)
qed

lemma postRegister_padded:
  assumes "trim e \<noteq> e"
  shows "snd (postRegister s nid n (JStr e) i) = s"
    and "truthy n \<and> truthy i \<longrightarrow>
           fst (postRegister s nid n (JStr e) i)
             = registerPage i ''?message=Invalid email format&type=danger''"
proof -
  from assms have ne: "e \<noteq> []"
    by (auto simp: trim_def)
  from assms have "\<not> emailRegex_test e"
    by (rule padded_not_email)
  then show "snd (postRegister s nid n (JStr e) i) = s"
    and "truthy n \<and> truthy i \<longrightarrow>
           fst (postRegister s nid n (JStr e) i)
             = registerPage i ''?message=Invalid email format&type=danger''"
    using ne by (simp_all add: postRegister_def)
qed

lemma createRegistration_keeps_trimmed:
  assumes "createRegistration s nid (JStr n) (JStr e) i = (Inr r, s1)"
    and "\<forall>reg\<in>set (registrations s). trim (email (snd reg)) = email (snd reg)"
  shows "\<forall>reg\<in>set (registrations s1). trim (email (snd reg)) = email (snd reg)"
  using createRegistration_Inr [OF assms(1)] assms(2) by (auto simp: stored_email_trimmed)

section \<open>The duplicate check\<close>

lemma served_emit: "served (emit ls s) = served s"
  by (simp add: served_iff)

lemma query_exists_value:
  assumes "dispatch (upperSql sql) = ExistsRegistration"
  shows "fst (query s nid sql [JStr e, i])
           = Inr (if served s \<and> (\<exists>reg\<in>set (registrations s).
                        email (snd reg) = toLowerCase e \<and> event_id (snd reg) = String_js i)
                  then [Rows [IdRow 1]] else [Rows []])"
proof -
  let ?s0 = "emit [Log, Log, Log] s"
  obtain x s1 where q: "isEmailRegisteredForEvent ?s0 (JStr e) i = (x, s1)"
    by (cases "isEmailRegisteredForEvent ?s0 (JStr e) i")
  have "fst (isEmailRegisteredForEvent ?s0 (JStr e) i)
          = Inr (served s \<and> (\<exists>reg\<in>set (registrations s).
                        email (snd reg) = toLowerCase e \<and> event_id (snd reg) = String_js i))"
    by (simp add: isEmailRegisteredForEvent_value served_emit)
  with q assms show ?thesis
    by (simp add: query_ExistsRegistration param_def)
qed

text \<open>
  C4, as the code has it. A registration that \<^const>\<open>createRegistration\<close> has returned is
  stored. In every state that still holds it, the existence check that the store serves,
  run with an email that equals the stored one up to letter case and with the same event
  identifier, returns the one-element array whose row list is the single row
  \<^verbatim>\<open>{ id: 1 }\<close>; and the handler of \<^verbatim>\<open>POST /register\<close>, with the store answering, given such
  an email for that event (the form valid, the event there), answers that the student is
  already registered and stores nothing. The row list is empty in a state with no
  registration for the pair, up to letter case of the email, and also whenever the store
  rejects the check.
\<close>

theorem duplicate_registration_detected:
  assumes "createRegistration s nid (JStr n) (JStr e) i = (Inr (Some reg), s1)"
    and "reg \<in> set (registrations s2)"
    and "toLowerCase e' = toLowerCase (email (snd reg))"
    and "String_js i' = event_id (snd reg)"
  shows "reg \<in> set (registrations s1)
    \<and> (dispatch (upperSql sql) = ExistsRegistration \<and> served s2 \<longrightarrow>
           fst (query s2 nid' sql [JStr e', i']) = Inr [Rows [IdRow 1]])
    \<and> (faults s2 = [] \<and> truthy n' \<and> truthy i' \<and> emailRegex_test e'
          \<and> map_of (events s2) (String_js i') \<noteq> None \<longrightarrow>
           fst (postRegister s2 nid' n' (JStr e') i')
             = registerPage i' ''?message=You are already registered for this event&type=warning''
           \<and> registrations (snd (postRegister s2 nid' n' (JStr e') i')) = registrations s2)
    \<and> (\<forall>s3. dispatch (upperSql sql) = ExistsRegistration
           \<and> (\<not> served s3
               \<or> \<not> (\<exists>r\<in>set (registrations s3).
                       toLowerCase (email (snd r)) = toLowerCase e'
                       \<and> event_id (snd r) = String_js i'))
         \<longrightarrow> fst (query s3 nid' sql [JStr e', i']) = Inr [Rows []])"
proof -
  let ?d = "\<lparr>name = trim n, email = toLowerCase (trim e), event_id = String_js i,
             r_createdAt = clock s\<rparr>"
  from createRegistration_Inr [OF assms(1)]
  have r: "reg = (nid, ?d)" and rs: "registrations s1 = registrations s @ [(nid, ?d)]"
    by simp_all
  from r rs have 0: "reg \<in> set (registrations s1)"
    by simp
  from r assms(3) have "toLowerCase e' = email (snd reg)"
    by (simp add: toLowerCase_idem)
  with assms(2,4)
  have ex: "\<exists>reg\<in>set (registrations s2).
              email (snd reg) = toLowerCase e' \<and> event_id (snd reg) = String_js i'"
    by auto
  have a: "dispatch (upperSql sql) = ExistsRegistration \<and> served s2 \<longrightarrow>
             fst (query s2 nid' sql [JStr e', i']) = Inr [Rows [IdRow 1]]"
    using ex by (simp add: query_exists_value)
  have b: "faults s2 = [] \<and> truthy n' \<and> truthy i' \<and> emailRegex_test e'
          \<and> map_of (events s2) (String_js i') \<noteq> None \<longrightarrow>
           fst (postRegister s2 nid' n' (JStr e') i')
             = registerPage i' ''?message=You are already registered for this event&type=warning''
           \<and> registrations (snd (postRegister s2 nid' n' (JStr e') i')) = registrations s2"
    using postRegister_duplicate [OF _ ex, of n' nid'] by simp
  have c: "\<forall>s3. dispatch (upperSql sql) = ExistsRegistration
           \<and> (\<not> served s3
               \<or> \<not> (\<exists>r\<in>set (registrations s3).
                       toLowerCase (email (snd r)) = toLowerCase e'
                       \<and> event_id (snd r) = String_js i'))
         \<longrightarrow> fst (query s3 nid' sql [JStr e', i']) = Inr [Rows []]"
  proof (intro allI impI)
    fix s3 :: state
    assume h: "dispatch (upperSql sql) = ExistsRegistration
           \<and> (\<not> served s3
               \<or> \<not> (\<exists>r\<in>set (registrations s3).
                       toLowerCase (email (snd r)) = toLowerCase e'
                       \<and> event_id (snd r) = String_js i'))"
    then have "\<not> served s3 \<or> \<not> (\<exists>r\<in>set (registrations s3).
                   email (snd r) = toLowerCase e' \<and> event_id (snd r) = String_js i')"
      by (metis toLowerCase_idem)
    with h show "fst (query s3 nid' sql [JStr e', i']) = Inr [Rows []]"
      by (auto simp: query_exists_value)
  qed
  from 0 a b c show ?thesis by blast
qed

theorem duplicate_registration_detected_witness:
  "fst (query
          (snd (createRegistration
                  (snd (createRegistration sampleState ''n1'' (JStr '' Bob '')
                          (JStr ''Bob@MUJ.in'') (JStr ''2'')))
                  ''n2'' (JStr ''Tara'') (JStr ''tara@muj.in'') (JStr ''1'')))
          ''n3'' ''SELECT id FROM registrations WHERE email = ? AND event_id = ?''
          [JStr ''BOB@muj.IN'', JStr ''2''])
     = Inr [Rows [IdRow 1]]
   \<and> fst (postRegister
            (snd (createRegistration
                    (snd (createRegistration sampleState ''n1'' (JStr '' Bob '')
                            (JStr ''Bob@MUJ.in'') (JStr ''2'')))
                    ''n2'' (JStr ''Tara'') (JStr ''tara@muj.in'') (JStr ''1'')))
            ''n3'' (JStr ''Bob'') (JStr ''BOB@muj.IN'') (JStr ''2''))
       = Redirect ''/register/2?message=You are already registered for this event&type=warning''
   \<and> fst (query sampleState ''n3''
            ''SELECT id FROM registrations WHERE email = ? AND event_id = ?''
            [JStr ''BOB@muj.IN'', JStr ''2''])
       = Inr [Rows []]
   \<and> fst (query
            (snd (createRegistration sampleState ''n1'' (JStr '' Bob '') (JStr ''Bob@MUJ.in'')
                    (JStr ''2''))
               \<lparr>faults := [Some unavailable]\<rparr>)
            ''n3'' ''SELECT id FROM registrations WHERE email = ? AND event_id = ?''
            [JStr ''BOB@muj.IN'', JStr ''2''])
       = Inr [Rows []]"
proof -
  let ?c = "createRegistration sampleState ''n1'' (JStr '' Bob '') (JStr ''Bob@MUJ.in'') (JStr ''2'')"
  let ?s2 = "snd (createRegistration (snd ?c) ''n2'' (JStr ''Tara'') (JStr ''tara@muj.in'')
                    (JStr ''1''))"
  let ?s3 = "snd ?c\<lparr>faults := [Some unavailable]\<rparr>"
  let ?reg = "(''n1'', \<lparr>name = ''Bob'', email = ''bob@muj.in'', event_id = ''2'',
                        r_createdAt = 6\<rparr>)"
  have c: "fst ?c = Inr (Some ?reg)"
    by code_simp
  then have eq: "?c = (Inr (Some ?reg), snd ?c)"
    by (metis prod.collapse)
  have st: "?reg \<in> set (registrations ?s2)"
    by code_simp
  have em: "toLowerCase ''BOB@muj.IN'' = toLowerCase (email (snd ?reg))"
    by code_simp
  have ev: "String_js (JStr ''2'') = event_id (snd ?reg)"
    by simp
  have ok: "served ?s2 \<and> faults ?s2 = [] \<and> truthy (JStr ''Bob'') \<and> truthy (JStr ''2'')
            \<and> emailRegex_test ''BOB@muj.IN''
            \<and> map_of (events ?s2) (String_js (JStr ''2'')) \<noteq> None"
    by code_simp
  have none: "\<not> (\<exists>r\<in>set (registrations sampleState).
                toLowerCase (email (snd r)) = toLowerCase ''BOB@muj.IN''
                \<and> event_id (snd r) = String_js (JStr ''2''))"
    by code_simp
  have rej: "\<not> served ?s3"
    by code_simp
  have pg: "registerPage (JStr ''2'')
              ''?message=You are already registered for this event&type=warning''
            = Redirect ''/register/2?message=You are already registered for this event&type=warning''"
    by (simp add: registerPage_def)
  note t = duplicate_registration_detected [OF eq st em ev,
      of "''SELECT id FROM registrations WHERE email = ? AND event_id = ?''" "''n3''"
        "JStr ''Bob''"]
  from t dispatch_exists_text ok
  have 1: "fst (query ?s2 ''n3'' ''SELECT id FROM registrations WHERE email = ? AND event_id = ?''
                  [JStr ''BOB@muj.IN'', JStr ''2'']) = Inr [Rows [IdRow 1]]"
    by blast
  from t ok pg
  have 2: "fst (postRegister ?s2 ''n3'' (JStr ''Bob'') (JStr ''BOB@muj.IN'') (JStr ''2''))
             = Redirect ''/register/2?message=You are already registered for this event&type=warning''"
    by simp
  from t dispatch_exists_text none
  have 3: "fst (query sampleState ''n3''
                  ''SELECT id FROM registrations WHERE email = ? AND event_id = ?''
                  [JStr ''BOB@muj.IN'', JStr ''2'']) = Inr [Rows []]"
    by blast
  from t dispatch_exists_text rej
  have 4: "fst (query ?s3 ''n3''
                  ''SELECT id FROM registrations WHERE email = ? AND event_id = ?''
                  [JStr ''BOB@muj.IN'', JStr ''2'']) = Inr [Rows []]"
    by blast
  from 1 2 3 4 show ?thesis
    by simp
qed

text \<open>
  C4, as the spec states it, fails when the store rejects the check: the catch block of
  \<^const>\<open>isEmailRegisteredForEvent\<close> returns \<^verbatim>\<open>false\<close>, the row list is empty, and the handler
  goes on to store a second registration for the same email and event.
\<close>

theorem duplicate_check_fails_open:
  "fst (createRegistration sampleState ''n1'' (JStr ''Bob'') (JStr ''bob@muj.in'') (JStr ''2''))
     = Inr (Some (''n1'', \<lparr>name = ''Bob'', email = ''bob@muj.in'', event_id = ''2'',
                           r_createdAt = 6\<rparr>))
   \<and> fst (query
            (snd (createRegistration sampleState ''n1'' (JStr ''Bob'') (JStr ''bob@muj.in'')
                    (JStr ''2''))
               \<lparr>faults := [Some unavailable]\<rparr>)
            ''n2'' ''SELECT id FROM registrations WHERE email = ? AND event_id = ?''
            [JStr ''bob@muj.in'', JStr ''2''])
       = Inr [Rows []]
   \<and> fst (postRegister
            (snd (createRegistration sampleState ''n1'' (JStr ''Bob'') (JStr ''bob@muj.in'')
                    (JStr ''2''))
               \<lparr>faults := [None, Some unavailable]\<rparr>)
            ''n2'' (JStr ''Bob'') (JStr ''bob@muj.in'') (JStr ''2''))
       = Redirect ''/?message=Registration successful!&type=success''
   \<and> registrations
        (snd (postRegister
                (snd (createRegistration sampleState ''n1'' (JStr ''Bob'') (JStr ''bob@muj.in'')
                        (JStr ''2''))
                   \<lparr>faults := [None, Some unavailable]\<rparr>)
                ''n2'' (JStr ''Bob'') (JStr ''bob@muj.in'') (JStr ''2'')))
       = sampleRegistrations @
           [(''n1'', \<lparr>name = ''Bob'', email = ''bob@muj.in'', event_id = ''2'', r_createdAt = 6\<rparr>),
            (''n2'', \<lparr>name = ''Bob'', email = ''bob@muj.in'', event_id = ''2'', r_createdAt = 6\<rparr>)]"
  by code_simp

section \<open>Emails padded with white space\<close>

text \<open>
  C9, as the code has it. With every stored email trimmed, as \<^const>\<open>createRegistration\<close>
  stores it (\<open>createRegistration_keeps_trimmed\<close>), the existence check for an email that has white space at its start or its end
  finds nothing, whatever the rest of the email is: the check returns \<^verbatim>\<open>false\<close> and the
  query an empty row list. The handler of \<^verbatim>\<open>POST /register\<close> does not reach the check with
  such an email: the email fails the format test, the handler leaves the state as it is,
  and for a form with a name and an event it answers that the email format is invalid.
\<close>

theorem padded_email_not_registered:
  assumes "\<forall>reg\<in>set (registrations s). trim (email (snd reg)) = email (snd reg)"
    and "trim e \<noteq> e"
  shows "fst (isEmailRegisteredForEvent s (JStr e) i) = Inr False
    \<and> (dispatch (upperSql sql) = ExistsRegistration \<longrightarrow>
          fst (query s nid sql [JStr e, i]) = Inr [Rows []])
    \<and> \<not> emailRegex_test e
    \<and> snd (postRegister s nid n (JStr e) i) = s
    \<and> (truthy n \<and> truthy i \<longrightarrow>
          fst (postRegister s nid n (JStr e) i)
            = registerPage i ''?message=Invalid email format&type=danger'')"
proof -
  from assms(2) have "trim (toLowerCase e) \<noteq> toLowerCase e"
    by (simp add: trim_lower_iff)
  with assms(1) have no: "\<not> (\<exists>reg\<in>set (registrations s).
      email (snd reg) = toLowerCase e \<and> event_id (snd reg) = String_js i)"
    by auto
  then have 1: "fst (isEmailRegisteredForEvent s (JStr e) i) = Inr False"
    by (simp add: isEmailRegisteredForEvent_value)
  have 2: "dispatch (upperSql sql) = ExistsRegistration \<longrightarrow>
          fst (query s nid sql [JStr e, i]) = Inr [Rows []]"
  proof
    assume d: "dispatch (upperSql sql) = ExistsRegistration"
    obtain x s1 where q: "isEmailRegisteredForEvent (emit [Log, Log, Log] s) (JStr e) i = (x, s1)"
      by (cases "isEmailRegisteredForEvent (emit [Log, Log, Log] s) (JStr e) i")
    from no have "fst (isEmailRegisteredForEvent (emit [Log, Log, Log] s) (JStr e) i) = Inr False"
      by (simp add: isEmailRegisteredForEvent_value)
    with q have "x = Inr False" by simp
    with q d show "fst (query s nid sql [JStr e, i]) = Inr [Rows []]"
      by (simp add: query_ExistsRegistration param_def)
  qed
  from 1 2 padded_not_email [OF assms(2)] postRegister_padded [OF assms(2)] show ?thesis
    by blast
qed

theorem padded_email_not_registered_witness:
  "fst (isEmailRegisteredForEvent sampleState (JStr '' asha@muj.in'') (JStr ''1'')) = Inr False
   \<and> fst (query sampleState ''n1''
            ''SELECT id FROM registrations WHERE email = ? AND event_id = ?''
            [JStr '' asha@muj.in'', JStr ''1''])
       = Inr [Rows []]
   \<and> snd (postRegister sampleState ''n1'' (JStr ''Asha'') (JStr '' asha@muj.in'') (JStr ''1''))
       = sampleState
   \<and> fst (postRegister sampleState ''n1'' (JStr ''Asha'') (JStr '' asha@muj.in'') (JStr ''1''))
       = Redirect ''/register/1?message=Invalid email format&type=danger''"
proof -
  have inv: "\<forall>reg\<in>set (registrations sampleState). trim (email (snd reg)) = email (snd reg)"
    by code_simp
  have pad: "trim '' asha@muj.in'' \<noteq> '' asha@muj.in''"
    by code_simp
  have ok: "truthy (JStr ''Asha'') \<and> truthy (JStr ''1'')"
    by simp
  have pg: "registerPage (JStr ''1'') ''?message=Invalid email format&type=danger''
            = Redirect ''/register/1?message=Invalid email format&type=danger''"
    by (simp add: registerPage_def)
  from padded_email_not_registered [OF inv pad,
      of "JStr ''1''" "''SELECT id FROM registrations WHERE email = ? AND event_id = ?''"
        "''n1''" "JStr ''Asha''"]
    dispatch_exists_text ok pg
  show ?thesis
    by simp
qed

text \<open>
  C9, as stated, fails on its conclusion: a second registration for the same email and
  event does not pass the route. Asha is registered for event 1; the form that carries
  her email with a leading space is turned away for its email format, and the
  registrations are as before.
\<close>

theorem padded_email_rejected_by_route:
  "map_of (registrations sampleState) ''9''
     = Some \<lparr>name = ''Asha'', email = ''asha@muj.in'', event_id = ''1'', r_createdAt = 3\<rparr>
   \<and> trim (toLowerCase '' Asha@muj.in'') = ''asha@muj.in''
   \<and> fst (isEmailRegisteredForEvent sampleState (JStr '' Asha@muj.in'') (JStr ''1''))
       = Inr False
   \<and> postRegister sampleState ''n1'' (JStr ''Asha'') (JStr '' Asha@muj.in'') (JStr ''1'')
       = (Redirect ''/register/1?message=Invalid email format&type=danger'', sampleState)
   \<and> registrations
        (snd (postRegister sampleState ''n1'' (JStr ''Asha'') (JStr '' Asha@muj.in'') (JStr ''1'')))
       = sampleRegistrations"
  by code_simp

section \<open>The join\<close>

lemma foldl_eventsMap:
  "distinct (map fst evs) \<Longrightarrow>
     foldl (\<lambda>m ev. m(fst ev \<mapsto> ev)) m0 evs k
       = (case map_of evs k of Some d \<Rightarrow> Some (k, d) | None \<Rightarrow> m0 k)"
proof (induction evs arbitrary: m0)
  case Nil
  then show ?case by simp
next
  case (Cons ev evs)
  then show ?case
    by (cases ev) (auto split: option.splits dest!: map_of_SomeD in_fst_image)
qed

lemma eventsMap_distinct:
  "distinct (map fst evs) \<Longrightarrow> eventsMap evs k = map_option (Pair k) (map_of evs k)"
  by (simp add: eventsMap_def foldl_eventsMap split: option.splits)

lemma map_of_mset_eq:
  assumes "mset xs = mset ys" "distinct (map fst ys)"
  shows "map_of xs = map_of ys"
proof -
  from assms(1) have "mset (map fst xs) = mset (map fst ys)"
    by (metis mset_map)
  with assms(2) have dx: "distinct (map fst xs)"
    by (metis mset_eq_imp_distinct_iff)
  from assms(1) have st: "set xs = set ys"
    by (rule mset_eq_setD)
  show ?thesis
  proof
    fix k
    show "map_of xs k = map_of ys k"
    proof (cases "map_of ys k")
      case None
      then have "k \<notin> fst ` set ys" by (simp add: map_of_eq_None_iff)
      with st have "k \<notin> fst ` set xs" by simp
      then have "map_of xs k = None" by (simp add: map_of_eq_None_iff)
      with None show ?thesis by simp
    next
      case (Some v)
      with assms(2) have "(k, v) \<in> set ys" by simp
      with st dx have "map_of xs k = Some v" by simp
      with Some show ?thesis by simp
    qed
  qed
qed

lemma mset_orderBy_date: "mset (orderBy_date c) = mset c"
  by (simp add: orderBy_date_def by_name_def mset_stable_sort)

lemma mset_by_name: "mset (by_name c) = mset c"
  by (simp add: by_name_def mset_stable_sort)

lemma mset_map_filter: "mset xs = mset ys \<Longrightarrow> mset (List.map_filter f xs) = mset (List.map_filter f ys)"
proof -
  assume a: "mset xs = mset ys"
  have "mset (List.map_filter f zs) = image_mset (the \<circ> f) (filter_mset (\<lambda>x. f x \<noteq> None) (mset zs))" for zs
    by (simp add: List.map_filter_def)
  with a show ?thesis by simp
qed

lemma joinRow_spec:
  assumes "distinct (map fst evs)" "mset evs' = mset evs"
    and "map_of evs (event_id (snd reg)) = None \<longrightarrow> event_id (snd reg) \<notin> set objectPrototype"
  shows "joinRow (eventsMap evs') reg = join_spec evs reg"
proof -
  from assms(1,2) have d: "distinct (map fst evs')"
    by (metis mset_eq_imp_distinct_iff mset_map)
  have m: "map_of evs' = map_of evs"
    using assms(2,1) by (rule map_of_mset_eq)
  show ?thesis
    using assms(3)
    by (auto simp: joinRow_def join_spec_def getProp_def eventsMap_distinct [OF d] m
        split: option.splits)
qed

lemma sorted_wrt_insert_by:
  assumes "\<And>a b c. R a b \<Longrightarrow> R b c \<Longrightarrow> R a c"
    and "\<And>y. y \<in> set ys \<Longrightarrow> lt y x \<Longrightarrow> R y x"
    and "\<And>y. y \<in> set ys \<Longrightarrow> \<not> lt y x \<Longrightarrow> R x y"
    and "sorted_wrt R ys"
  shows "sorted_wrt R (insert_by lt x ys)"
  using assms(2-)
proof (induction ys)
  case Nil
  then show ?case by simp
next
  case (Cons y ys)
  show ?case
  proof (cases "lt y x")
    case True
    have "sorted_wrt R (insert_by lt x ys)"
      using Cons by auto
    moreover have "\<forall>z\<in>set (insert_by lt x ys). R y z"
    proof
      fix z assume "z \<in> set (insert_by lt x ys)"
      then have "z = x \<or> z \<in> set ys"
        by (metis mset_insert_by set_mset_mset set_mset_add_mset_insert insertE)
      with Cons.prems True show "R y z" by auto
    qed
    ultimately show ?thesis using True by simp
  next
    case False
    with Cons.prems have xy: "R x y" by simp
    have "\<forall>z\<in>set ys. R x z"
      using Cons.prems(3) xy assms(1) by auto
    with xy False Cons.prems(3) show ?thesis by simp
  qed
qed

lemma sorted_sort_js_byIdDesc:
  assumes "\<forall>r\<in>set xs. numericId (j_id r)"
  shows "sorted_wrt (\<lambda>a b. idNum b \<le> idNum a) (sort_js byIdDesc xs)"
  using assms
proof (induction xs)
  case Nil
  then show ?case by (simp add: sort_js_def stable_sort_def)
next
  case (Cons x xs)
  let ?lt = "\<lambda>a b. case byIdDesc a b of None \<Rightarrow> False | Some d \<Rightarrow> d < 0"
  have num: "\<And>r. r \<in> set (x # xs) \<Longrightarrow> \<exists>n. parseInt (j_id r) = Some n"
    using Cons.prems by (auto simp: numericId_def split: option.splits)
  have lt: "\<And>a b. a \<in> set (x # xs) \<Longrightarrow> b \<in> set (x # xs) \<Longrightarrow> ?lt a b \<longleftrightarrow> idNum b < idNum a"
  proof -
    fix a b assume "a \<in> set (x # xs)" "b \<in> set (x # xs)"
    then obtain na nb where "parseInt (j_id a) = Some na" "parseInt (j_id b) = Some nb"
      using num by blast
    then show "?lt a b \<longleftrightarrow> idNum b < idNum a"
      by (simp add: byIdDesc_def idNum_def)
  qed
  have ih: "sorted_wrt (\<lambda>a b. idNum b \<le> idNum a) (stable_sort ?lt xs)"
    using Cons by (simp add: sort_js_def)
  have st: "set (stable_sort ?lt xs) = set xs"
    by (rule set_stable_sort)
  have "sorted_wrt (\<lambda>a b. idNum b \<le> idNum a) (insert_by ?lt x (stable_sort ?lt xs))"
  proof (rule sorted_wrt_insert_by)
    show "\<And>a b c. idNum b \<le> idNum a \<Longrightarrow> idNum c \<le> idNum b \<Longrightarrow> idNum c \<le> idNum a"
      by simp
    show "\<And>y. y \<in> set (stable_sort ?lt xs) \<Longrightarrow> ?lt y x \<Longrightarrow> idNum x \<le> idNum y"
      using lt st by (metis insert_iff less_imp_le list.set(2))
    show "\<And>y. y \<in> set (stable_sort ?lt xs) \<Longrightarrow> \<not> ?lt y x \<Longrightarrow> idNum y \<le> idNum x"
      using lt st by (metis insert_iff not_less list.set(2))
    show "sorted_wrt (\<lambda>a b. idNum b \<le> idNum a) (stable_sort ?lt xs)"
      by (rule ih)
  qed
  then show ?case
    by (simp add: sort_js_def stable_sort_def)
qed

lemma map_filter_cong_set:
  "(\<And>x. x \<in> set xs \<Longrightarrow> f x = g x) \<Longrightarrow> List.map_filter f xs = List.map_filter g xs"
  by (induction xs) (auto simp: List.map_filter_simps split: option.splits)

lemma getAllRegistrations_ok:
  "faults s = [] \<Longrightarrow> getAllRegistrations s = (Inr (by_name (registrations s)), s)"
  by (simp add: getAllRegistrations_def query_get_def respond_def snapshotToArray_id)

lemma getAllEvents_ok:
  "faults s = [] \<Longrightarrow> getAllEvents s = (Inr (orderBy_date (events s)), emit [Log] s)"
  by (simp add: getAllEvents_def query_get_def respond_def snapshotToArray_id)

lemma getRegistrationsWithEvents_ok:
  "faults s = [] \<Longrightarrow>
     getRegistrationsWithEvents s
       = (Inr (joinRows (by_name (registrations s)) (orderBy_date (events s))), emit [Log] s)"
  by (simp add: getRegistrationsWithEvents_def getAllRegistrations_ok getAllEvents_ok)

lemma dispatch_adminQuery: "dispatch (upperSql adminQuery) = Join"
  by code_simp

lemma mset_map_filter_extra:
  assumes "\<And>x. x \<in> set xs \<Longrightarrow> \<not> P x \<Longrightarrow> f x = g x"
    and "\<And>x. x \<in> set xs \<Longrightarrow> P x \<Longrightarrow> g x = None"
  shows "mset (List.map_filter f xs)
           = mset (List.map_filter g xs) + mset (List.map_filter f (filter P xs))"
  using assms
proof (induction xs)
  case Nil
  then show ?case by (simp add: List.map_filter_simps)
next
  case (Cons x xs)
  then have ih: "mset (List.map_filter f xs)
           = mset (List.map_filter g xs) + mset (List.map_filter f (filter P xs))"
    by simp
  show ?case
  proof (cases "P x")
    case True
    with Cons.prems(2) have "g x = None" by simp
    with True ih show ?thesis
      by (simp add: List.map_filter_simps split: option.splits)
  next
    case False
    with Cons.prems(1) have "f x = g x" by simp
    with False ih show ?thesis
      by (simp add: List.map_filter_simps split: option.splits)
  qed
qed

lemma set_map_filter: "set (List.map_filter f xs) = {y. \<exists>x\<in>set xs. f x = Some y}"
  by (induction xs) (auto simp: List.map_filter_simps split: option.splits)

lemma joinRow_id: "joinRow m reg = Some x \<Longrightarrow> j_id x = fst reg"
  by (auto simp: joinRow_def split: property.splits)

lemma join_spec_inherited: "namesInherited evs reg \<Longrightarrow> join_spec evs reg = None"
  by (simp add: namesInherited_def join_spec_def)

text \<open>
  C1, as the code has it. With the store answering both reads and a text that reaches the
  join branch, the query returns the one-element array holding the rows of the join. When
  the identifier of every row is numeric, the rows are in descending order of these
  numbers. With the identifiers of the events unique, the rows are, up to their order,
  the rows of the spec (one flattened row for each registration whose \<^verbatim>\<open>event_id\<close> is the
  identifier of an event, none for the others) and besides them only rows that come from
  registrations naming an inherited property: every other registration without an event
  is dropped.
\<close>

theorem join_query:
  assumes "faults s = []" and "dispatch (upperSql sql) = Join"
  shows "\<exists>rows. fst (query s nid sql params) = Inr [Rows (map JoinRow rows)]
           \<and> ((\<forall>r\<in>set rows. numericId (j_id r)) \<longrightarrow>
                 sorted_wrt (\<lambda>a b. idNum b \<le> idNum a) rows)
           \<and> (distinct (map fst (events s)) \<longrightarrow>
                (\<exists>extra. mset rows
                           = mset (List.map_filter (join_spec (events s)) (registrations s))
                             + extra
                   \<and> (\<forall>x\<in>#extra. \<exists>reg\<in>set (registrations s).
                          namesInherited (events s) reg \<and> j_id x = fst reg)))"
proof -
  let ?regs = "by_name (registrations s)"
  let ?evs = "orderBy_date (events s)"
  let ?f = "joinRow (eventsMap ?evs)"
  let ?P = "namesInherited (events s)"
  let ?ys = "List.map_filter ?f ?regs"
  let ?rows = "joinRows ?regs ?evs"
  let ?extra = "mset (List.map_filter ?f (filter ?P ?regs))"
  have q: "fst (query s nid sql params) = Inr [Rows (map JoinRow ?rows)]"
    using assms by (simp add: query_Join getRegistrationsWithEvents_ok)
  have rows: "?rows = sort_js byIdDesc ?ys"
    by (simp add: joinRows_def)
  have st: "set ?rows = set ?ys"
    by (simp add: rows sort_js_def set_stable_sort)
  have srt: "(\<forall>r\<in>set ?rows. numericId (j_id r)) \<longrightarrow>
                 sorted_wrt (\<lambda>a b. idNum b \<le> idNum a) ?rows"
  proof
    assume "\<forall>r\<in>set ?rows. numericId (j_id r)"
    with st have "\<forall>r\<in>set ?ys. numericId (j_id r)"
      by simp
    then have "sorted_wrt (\<lambda>a b. idNum b \<le> idNum a) (sort_js byIdDesc ?ys)"
      by (rule sorted_sort_js_byIdDesc)
    then show "sorted_wrt (\<lambda>a b. idNum b \<le> idNum a) ?rows"
      by (simp add: rows)
  qed
  have ms: "distinct (map fst (events s)) \<longrightarrow>
                (\<exists>extra. mset ?rows
                           = mset (List.map_filter (join_spec (events s)) (registrations s))
                             + extra
                   \<and> (\<forall>x\<in>#extra. \<exists>reg\<in>set (registrations s).
                          namesInherited (events s) reg \<and> j_id x = fst reg))"
  proof
    assume d: "distinct (map fst (events s))"
    have "mset ?ys = mset (List.map_filter (join_spec (events s)) ?regs) + ?extra"
    proof (rule mset_map_filter_extra)
      fix reg assume "reg \<in> set ?regs" and "\<not> ?P reg"
      then have "map_of (events s) (event_id (snd reg)) = None \<longrightarrow>
           event_id (snd reg) \<notin> set objectPrototype"
        by (auto simp: namesInherited_def)
      with d show "?f reg = join_spec (events s) reg"
        by (intro joinRow_spec) (simp_all add: mset_orderBy_date)
    next
      fix reg assume "?P reg"
      then show "join_spec (events s) reg = None"
        by (rule join_spec_inherited)
    qed
    then have m: "mset ?rows
        = mset (List.map_filter (join_spec (events s)) (registrations s)) + ?extra"
      by (simp add: rows sort_js_def mset_stable_sort mset_map_filter [OF mset_by_name])
    have "\<forall>x\<in>#?extra. \<exists>reg\<in>set (registrations s). ?P reg \<and> j_id x = fst reg"
      by (auto simp: set_map_filter set_by_name dest: joinRow_id)
    with m show "\<exists>extra. mset ?rows
                           = mset (List.map_filter (join_spec (events s)) (registrations s))
                             + extra
                   \<and> (\<forall>x\<in>#extra. \<exists>reg\<in>set (registrations s).
                          namesInherited (events s) reg \<and> j_id x = fst reg)"
      by blast
  qed
  from q srt ms show ?thesis by blast
qed

theorem join_query_witness:
  "fst (query mixedState ''n1'' adminQuery [])
     = Inr [Rows (map JoinRow
         [\<lparr>j_id = ''12'', j_name = ''Kabir'', j_email = ''kabir@muj.in'',
            event_title = JUndefined, event_date = JUndefined, event_venue = JUndefined\<rparr>,
          \<lparr>j_id = ''11'', j_name = ''Meera'', j_email = ''meera@muj.in'',
            event_title = JStr ''Tech Innovators Summit'', event_date = JStr ''2025-12-01'',
            event_venue = JStr ''Auditorium A''\<rparr>,
          \<lparr>j_id = ''10'', j_name = ''Ravi'', j_email = ''ravi@muj.in'',
            event_title = JStr ''AI Workshop'', event_date = JStr ''2025-12-05'',
            event_venue = JStr ''Lab 3''\<rparr>,
          \<lparr>j_id = ''9'', j_name = ''Asha'', j_email = ''asha@muj.in'',
            event_title = JStr ''Tech Innovators Summit'', event_date = JStr ''2025-12-01'',
            event_venue = JStr ''Auditorium A''\<rparr>])]
   \<and> sorted_wrt (\<lambda>a b. idNum b \<le> idNum a)
        [\<lparr>j_id = ''12'', j_name = ''Kabir'', j_email = ''kabir@muj.in'',
            event_title = JUndefined, event_date = JUndefined, event_venue = JUndefined\<rparr>,
          \<lparr>j_id = ''11'', j_name = ''Meera'', j_email = ''meera@muj.in'',
            event_title = JStr ''Tech Innovators Summit'', event_date = JStr ''2025-12-01'',
            event_venue = JStr ''Auditorium A''\<rparr>,
          \<lparr>j_id = ''10'', j_name = ''Ravi'', j_email = ''ravi@muj.in'',
            event_title = JStr ''AI Workshop'', event_date = JStr ''2025-12-05'',
            event_venue = JStr ''Lab 3''\<rparr>,
          \<lparr>j_id = ''9'', j_name = ''Asha'', j_email = ''asha@muj.in'',
            event_title = JStr ''Tech Innovators Summit'', event_date = JStr ''2025-12-01'',
            event_venue = JStr ''Auditorium A''\<rparr>]
   \<and> mset (List.map_filter (join_spec (events mixedState)) (registrations mixedState))
       \<subseteq># mset
        [\<lparr>j_id = ''12'', j_name = ''Kabir'', j_email = ''kabir@muj.in'',
            event_title = JUndefined, event_date = JUndefined, event_venue = JUndefined\<rparr>,
          \<lparr>j_id = ''11'', j_name = ''Meera'', j_email = ''meera@muj.in'',
            event_title = JStr ''Tech Innovators Summit'', event_date = JStr ''2025-12-01'',
            event_venue = JStr ''Auditorium A''\<rparr>,
          \<lparr>j_id = ''10'', j_name = ''Ravi'', j_email = ''ravi@muj.in'',
            event_title = JStr ''AI Workshop'', event_date = JStr ''2025-12-05'',
            event_venue = JStr ''Lab 3''\<rparr>,
          \<lparr>j_id = ''9'', j_name = ''Asha'', j_email = ''asha@muj.in'',
            event_title = JStr ''Tech Innovators Summit'', event_date = JStr ''2025-12-01'',
            event_venue = JStr ''Auditorium A''\<rparr>]"
proof -
  let ?rs = "[\<lparr>j_id = ''12'', j_name = ''Kabir'', j_email = ''kabir@muj.in'',
            event_title = JUndefined, event_date = JUndefined, event_venue = JUndefined\<rparr>,
          \<lparr>j_id = ''11'', j_name = ''Meera'', j_email = ''meera@muj.in'',
            event_title = JStr ''Tech Innovators Summit'', event_date = JStr ''2025-12-01'',
            event_venue = JStr ''Auditorium A''\<rparr>,
          \<lparr>j_id = ''10'', j_name = ''Ravi'', j_email = ''ravi@muj.in'',
            event_title = JStr ''AI Workshop'', event_date = JStr ''2025-12-05'',
            event_venue = JStr ''Lab 3''\<rparr>,
          \<lparr>j_id = ''9'', j_name = ''Asha'', j_email = ''asha@muj.in'',
            event_title = JStr ''Tech Innovators Summit'', event_date = JStr ''2025-12-01'',
            event_venue = JStr ''Auditorium A''\<rparr>]"
  have f: "faults mixedState = []"
    by (simp add: mixedState_def sampleState_def)
  have d: "distinct (map fst (events mixedState))"
    by code_simp
  have q: "fst (query mixedState ''n1'' adminQuery []) = Inr [Rows (map JoinRow ?rs)]"
    by code_simp
  have n: "\<forall>r\<in>set ?rs. numericId (j_id r)"
    by code_simp
  from join_query [OF f dispatch_adminQuery, of "''n1''" "[]"] d
  obtain rows extra
    where r: "fst (query mixedState ''n1'' adminQuery []) = Inr [Rows (map JoinRow rows)]"
    and s: "(\<forall>r\<in>set rows. numericId (j_id r)) \<longrightarrow> sorted_wrt (\<lambda>a b. idNum b \<le> idNum a) rows"
    and m: "mset rows
              = mset (List.map_filter (join_spec (events mixedState)) (registrations mixedState))
                + extra"
    by blast
  from r q have "map JoinRow rows = map JoinRow ?rs"
    by simp
  moreover have "inj JoinRow"
    by (simp add: inj_def)
  ultimately have e: "rows = ?rs"
    by (simp only: inj_map_eq_map)
  from m have "mset (List.map_filter (join_spec (events mixedState)) (registrations mixedState))
                 \<subseteq># mset rows"
    by simp
  with s n q e show ?thesis
    by simp
qed

text \<open>
  C1, as the spec states it, fails in three ways. Under identifiers as the store generates
  them \<^const>\<open>parseInt\<close> reads no number, the comparator gives \<^verbatim>\<open>NaN\<close> and the rows stay in
  the ascending order of the snapshot; the registration that names \<^verbatim>\<open>constructor\<close>, which is
  no event, is not dropped but gets a row with undefined event fields; and a text that
  contains both phrases of the join is answered by an earlier branch when one matches.
\<close>

theorem join_rows_of_generated_ids:
  "parseInt ''Hk2mQ'' = None \<and> parseInt ''pT9xB'' = None \<and> parseInt ''w3LrD'' = None
   \<and> map_of (events generatedState) ''constructor'' = None
   \<and> fst (query generatedState ''n1'' adminQuery [])
       = Inr [Rows
           [JoinRow \<lparr>j_id = ''Hk2mQ'', j_name = ''Asha'', j_email = ''asha@muj.in'',
                     event_title = JStr ''Tech Innovators Summit'',
                     event_date = JStr ''2025-12-01'', event_venue = JStr ''Auditorium A''\<rparr>,
            JoinRow \<lparr>j_id = ''pT9xB'', j_name = ''Ravi'', j_email = ''ravi@muj.in'',
                     event_title = JStr ''AI Workshop'', event_date = JStr ''2025-12-05'',
                     event_venue = JStr ''Lab 3''\<rparr>,
            JoinRow \<lparr>j_id = ''w3LrD'', j_name = ''Meera'', j_email = ''meera@muj.in'',
                     event_title = JUndefined, event_date = JUndefined,
                     event_venue = JUndefined\<rparr>]]
   \<and> includes_js
        (upperSql ''SELECT e.id FROM registrations r INNER JOIN events e UNION SELECT id FROM events'')
        ''FROM REGISTRATIONS R''
   \<and> includes_js
        (upperSql ''SELECT e.id FROM registrations r INNER JOIN events e UNION SELECT id FROM events'')
        ''INNER JOIN EVENTS E''
   \<and> fst (query sampleState ''n1''
            ''SELECT e.id FROM registrations r INNER JOIN events e UNION SELECT id FROM events'' [])
       = Inr [Rows (map EventRow sampleEvents)]"
  by code_simp

end
